theory Spec2Isabelle
  imports Complex_Main "HOL-Library.Sublist"
begin

section \<open>Transcript logger (transcript\_utils.py)\<close>

text \<open>
  Python values that reach the logger as keyword metadata or as extra entry data:
  strings (device, language), integers (VAD mode), floats (confidence, duration; a float
  is represented by the rational it denotes) and lists (the transcription times).
\<close>

datatype pyval = PStr string | PInt int | PFloat rat | PList "pyval list" | PNone

text \<open>Python truthiness, as used by \<^verbatim>\<open>if times:\<close>.\<close>

fun truthy :: "pyval \<Rightarrow> bool" where
  "truthy (PStr s) = (s \<noteq> [])"
| "truthy (PInt i) = (i \<noteq> 0)"
| "truthy (PFloat r) = (r \<noteq> 0)"
| "truthy (PList vs) = (vs \<noteq> [])"
| "truthy PNone = False"

text \<open>
  The formatting built-ins of Python that \<^verbatim>\<open>_write_transcript_content\<close> calls are
  parameters of the model. A result \<open>None\<close> stands for the built-in raising an exception
  (\<^verbatim>\<open>f"{value:.2f}"\<close> on a string, \<^verbatim>\<open>sum(times)\<close> on a non-list).
\<close>

record 't pylib =
  py_upper :: "string \<Rightarrow> string"
  py_title :: "string \<Rightarrow> string"
  py_str :: "pyval \<Rightarrow> string"
  py_fmt2f :: "pyval \<Rightarrow> string option"
  py_avg2f :: "pyval \<Rightarrow> string option"
  strftime_file :: "'t \<Rightarrow> string"
  strftime_long :: "'t \<Rightarrow> string"
  strftime_hms :: "'t \<Rightarrow> string"
  py_strip :: "string \<Rightarrow> string"

text \<open>
  A transcript entry is the dictionary \<^verbatim>\<open>{'timestamp': .., 'text': .., **extra_data}\<close>.
  The keyword arguments of \<^verbatim>\<open>add_transcript\<close> cannot be named \<^verbatim>\<open>text\<close> or
  \<^verbatim>\<open>timestamp\<close> (Python rejects the call), so the extra data is kept apart, in
  insertion order.
\<close>

record entry =
  entry_timestamp :: string
  entry_text :: string
  extra_data :: "(string \<times> pyval) list"

record 't logger =
  tool_name :: string
  logger_model_name :: string
  session_start_time :: "'t option"
  transcript_entries :: "entry list"
  session_metadata :: "(string \<times> pyval) list"

definition TranscriptLogger :: "string \<Rightarrow> string \<Rightarrow> 't logger" where
  "TranscriptLogger tool mdl =
     \<lparr>tool_name = tool, logger_model_name = mdl, session_start_time = None,
      transcript_entries = [], session_metadata = []\<rparr>"

text \<open>\<^verbatim>\<open>start_session(**metadata)\<close>; \<open>now\<close> is the reading of \<^verbatim>\<open>datetime.now()\<close>.\<close>

definition start_session :: "'t \<Rightarrow> (string \<times> pyval) list \<Rightarrow> 't logger \<Rightarrow> 't logger" where
  "start_session now metadata L =
     L\<lparr>session_start_time := Some now, transcript_entries := [], session_metadata := metadata\<rparr>"

text \<open>
  \<^verbatim>\<open>add_transcript(text, timestamp=None, **extra_data)\<close>. \<^verbatim>\<open>not timestamp\<close> holds
  for \<^verbatim>\<open>None\<close> and for the empty string.
\<close>

definition add_transcript ::
  "'t pylib \<Rightarrow> 't \<Rightarrow> string \<Rightarrow> string option \<Rightarrow> (string \<times> pyval) list \<Rightarrow> 't logger \<Rightarrow> 't logger" where
  "add_transcript py now txt timestamp extra L =
     (let ts = (case timestamp of
                  None \<Rightarrow> strftime_hms py now
                | Some t \<Rightarrow> if t = [] then strftime_hms py now else t)
      in L\<lparr>transcript_entries := transcript_entries L @
             [\<lparr>entry_timestamp = ts, entry_text = txt, extra_data = extra\<rparr>]\<rparr>)"

text \<open>A sequence of \<^verbatim>\<open>add_transcript\<close> calls, each with its clock reading and arguments.\<close>

fun add_transcripts ::
  "'t pylib \<Rightarrow> ('t \<times> string \<times> string option \<times> (string \<times> pyval) list) list \<Rightarrow> 't logger \<Rightarrow> 't logger" where
  "add_transcripts py [] L = L"
| "add_transcripts py ((now, txt, timestamp, extra) # calls) L =
     add_transcripts py calls (add_transcript py now txt timestamp extra L)"

text \<open>Dictionary assignment \<^verbatim>\<open>d[k] = v\<close>: an existing key keeps its position.\<close>

fun dict_set :: "string \<Rightarrow> pyval \<Rightarrow> (string \<times> pyval) list \<Rightarrow> (string \<times> pyval) list" where
  "dict_set k v [] = [(k, v)]"
| "dict_set k v ((k', v') # d) = (if k' = k then (k, v) # d else (k', v') # dict_set k v d)"

subsection \<open>The text written by \_write\_transcript\_content\<close>

function str_nat :: "nat \<Rightarrow> string" where
  "str_nat n = (if n < 10 then [''0123456789'' ! n]
                else str_nat (n div 10) @ [''0123456789'' ! (n mod 10)])"
  by pat_completeness auto
termination
  by (relation "measure id") auto

declare str_nat.simps [simp del]

definition replace_underscores :: "string \<Rightarrow> string" where
  "replace_underscores k = map (\<lambda>c. if c = CHR ''_'' then CHR '' '' else c) k"

text \<open>\<^verbatim>\<open>" ".join(texts)\<close>\<close>

fun join_spaces :: "string list \<Rightarrow> string" where
  "join_spaces [] = []"
| "join_spaces [t] = t"
| "join_spaces (t # ts) = t @ '' '' @ join_spaces ts"

text \<open>
  Every function below returns the arguments of the successive \<^verbatim>\<open>f.write\<close> calls, in
  order; an argument whose evaluation raises is \<open>None\<close>.
\<close>

definition header_lines :: "'t pylib \<Rightarrow> 't \<Rightarrow> 't \<Rightarrow> 't logger \<Rightarrow> string option list" where
  "header_lines py start now L =
     [Some (replicate 70 CHR ''='' @ [CHR 0x0A]),
      Some (py_upper py (tool_name L) @ '' TRANSCRIPTION SESSION'' @ [CHR 0x0A]),
      Some (replicate 70 CHR ''='' @ [CHR 0x0A]),
      Some (''Session started: '' @ strftime_long py start @ [CHR 0x0A]),
      Some (''Session ended: '' @ strftime_long py now @ [CHR 0x0A]),
      Some (''Tool: '' @ tool_name L @ [CHR 0x0A]),
      Some (''Model: '' @ logger_model_name L @ [CHR 0x0A])]"

definition metadata_lines :: "'t pylib \<Rightarrow> 't logger \<Rightarrow> string option list" where
  "metadata_lines py L =
     map (\<lambda>(k, v). Some (py_title py (replace_underscores k) @ '': '' @ py_str py v @ [CHR 0x0A]))
       (session_metadata L)"

definition stats_lines :: "'t pylib \<Rightarrow> 't logger \<Rightarrow> string option list" where
  "stats_lines py L =
     (case map_of (session_metadata L) ''transcription_times'' of
        None \<Rightarrow> []
      | Some tms \<Rightarrow>
          if truthy tms
          then [map_option (\<lambda>a. ''Average transcription time: '' @ a @ ''s'' @ [CHR 0x0A])
                  (py_avg2f py tms)]
          else [])"

definition extra_line :: "'t pylib \<Rightarrow> string \<times> pyval \<Rightarrow> string option" where
  "extra_line py kv =
     (case kv of (k, v) \<Rightarrow>
        if k = ''confidence''
        then map_option (\<lambda>x. py_title py k @ '': '' @ x @ [CHR 0x0A]) (py_fmt2f py v)
        else if k = ''duration''
        then map_option (\<lambda>x. ''Processing time: '' @ x @ ''s'' @ [CHR 0x0A]) (py_fmt2f py v)
        else Some (py_title py k @ '': '' @ py_str py v @ [CHR 0x0A]))"

definition entry_lines :: "'t pylib \<Rightarrow> nat \<times> entry \<Rightarrow> string option list" where
  "entry_lines py ie =
     (case ie of (i, e) \<Rightarrow>
        [Some (''['' @ entry_timestamp e @ ''] Segment '' @ str_nat i @ [CHR 0x0A]),
         Some (''Text: '' @ entry_text e @ [CHR 0x0A])]
        @ map (extra_line py) (extra_data e)
        @ [Some (replicate 50 CHR ''-'' @ [CHR 0x0A, CHR 0x0A])])"

definition write_transcript_content :: "'t pylib \<Rightarrow> 't \<Rightarrow> 't \<Rightarrow> 't logger \<Rightarrow> string option list" where
  "write_transcript_content py start now L =
     header_lines py start now L
     @ metadata_lines py L
     @ [Some (''Total segments: '' @ str_nat (length (transcript_entries L)) @ [CHR 0x0A])]
     @ stats_lines py L
     @ [Some ([CHR 0x0A] @ replicate 70 CHR ''='' @ [CHR 0x0A]),
        Some (''DETAILED TRANSCRIPT'' @ [CHR 0x0A]),
        Some (replicate 70 CHR ''='' @ [CHR 0x0A, CHR 0x0A])]
     @ concat (map (entry_lines py)
         (zip [1 ..< Suc (length (transcript_entries L))] (transcript_entries L)))
     @ [Some (replicate 70 CHR ''='' @ [CHR 0x0A]),
        Some (''CONTINUOUS TRANSCRIPT'' @ [CHR 0x0A]),
        Some (replicate 70 CHR ''='' @ [CHR 0x0A, CHR 0x0A]),
        Some (join_spaces (map entry_text (transcript_entries L))),
        Some [CHR 0x0A]]"

subsection \<open>Saving\<close>

text \<open>
  The file system holds directories and files with their contents. What the operating
  system and the console do to a call is an input: \<open>makedirs_raises\<close>, \<open>open_raises\<close>
  and \<open>getsize_raises\<close> say that the call raises; \<open>bytes_accepted\<close> bounds the number of
  bytes that the operating system takes for the file (\<open>None\<close>: all of them);
  \<open>print_raises\<close> says for each console message of \<^verbatim>\<open>save_transcript\<close> whether printing
  it raises, as it does with \<^verbatim>\<open>UnicodeEncodeError\<close> on a console that cannot encode the
  emoji the message starts with.
\<close>

record fsys =
  dirs :: "string set"
  files :: "string \<rightharpoonup> string"

datatype message =
  NoTranscriptToSave | CreatedDirectory | TranscriptSavedTo | TotalSegments | FileSize
  | ErrorSavingTranscript

record os_outcome =
  makedirs_raises :: bool
  open_raises :: bool
  bytes_accepted :: "nat option"
  getsize_raises :: bool
  print_raises :: "message \<Rightarrow> bool"

datatype error = OSError | ModelLoadError | UnicodeEncodeError

definition path_exists :: "fsys \<Rightarrow> string \<Rightarrow> bool" where
  "path_exists fs p = (p \<in> dirs fs \<or> p \<in> dom (files fs))"

text \<open>\<^verbatim>\<open>os.path.join(a, b)\<close> for a relative second component.\<close>

definition path_join :: "string \<Rightarrow> string \<Rightarrow> string" where
  "path_join a b = (if a = [] then b else if last a = CHR ''/'' then a @ b else a @ ''/'' @ b)"

text \<open>
  The file is buffered: \<^verbatim>\<open>f.write\<close> hands its text to a buffer, which goes to the
  operating system when it is full and when the \<^verbatim>\<open>with\<close> block closes the file. The text
  that is handed over is the one of the chunks before the first chunk whose evaluation
  raises. The file ends up with the bytes of this text that the operating system accepts;
  a refused byte makes the write or the close that flushes it raise, inside the
  \<^verbatim>\<open>try\<close>.
\<close>

definition rendered_text :: "string option list \<Rightarrow> string" where
  "rendered_text chunks = concat (map the (takeWhile (\<lambda>c. c \<noteq> None) chunks))"

definition file_content :: "nat option \<Rightarrow> string option list \<Rightarrow> string" where
  "file_content limit chunks =
     (case limit of None \<Rightarrow> rendered_text chunks | Some k \<Rightarrow> take k (rendered_text chunks))"

definition write_completes :: "nat option \<Rightarrow> string option list \<Rightarrow> bool" where
  "write_completes limit chunks =
     (list_all (\<lambda>c. c \<noteq> None) chunks \<and>
      (case limit of None \<Rightarrow> True | Some k \<Rightarrow> length (rendered_text chunks) \<le> k))"

text \<open>
  The result of \<^verbatim>\<open>save_transcript\<close> is \<open>Inl e\<close> when the exception \<open>e\<close> leaves the
  method, and \<open>Inr r\<close> when it returns \<open>r\<close>: \<open>None\<close> or the file name.

  The early return prints a message first; the exception of a failing \<^verbatim>\<open>print\<close> leaves
  the method.
\<close>

definition no_transcript_to_save :: "os_outcome \<Rightarrow> fsys \<Rightarrow> (error + string option) \<times> fsys" where
  "no_transcript_to_save os fs =
     (if print_raises os NoTranscriptToSave then (Inl UnicodeEncodeError, fs) else (Inr None, fs))"

text \<open>
  The \<^verbatim>\<open>except\<close> handler prints the error and returns \<^verbatim>\<open>None\<close>; the exception of a
  failing \<^verbatim>\<open>print\<close> in the handler leaves the method.
\<close>

definition error_saving_transcript :: "os_outcome \<Rightarrow> fsys \<Rightarrow> (error + string option) \<times> fsys" where
  "error_saving_transcript os fs =
     (if print_raises os ErrorSavingTranscript then (Inl UnicodeEncodeError, fs) else (Inr None, fs))"

text \<open>
  \<^verbatim>\<open>save_transcript(output_dir)\<close>. Creating the output directory and printing that it
  was created happen before the \<^verbatim>\<open>try\<close>. Inside the \<^verbatim>\<open>try\<close>, opening the file for
  writing creates or truncates it, the \<^verbatim>\<open>with\<close> block writes and closes it, and three
  messages are printed, the last with the size of the file.
\<close>

definition save_transcript ::
  "'t pylib \<Rightarrow> os_outcome \<Rightarrow> 't \<Rightarrow> string \<Rightarrow> 't logger \<Rightarrow> fsys \<Rightarrow> (error + string option) \<times> fsys" where
  "save_transcript py os now output_dir L fs =
     (case session_start_time L of
        None \<Rightarrow> no_transcript_to_save os fs
      | Some start \<Rightarrow>
          if transcript_entries L = [] then no_transcript_to_save os fs
          else if \<not> path_exists fs output_dir \<and> makedirs_raises os then (Inl OSError, fs)
          else
            let fs1 = (if \<not> path_exists fs output_dir
                       then fs\<lparr>dirs := insert output_dir (dirs fs)\<rparr> else fs);
                filename = path_join output_dir
                             (''transcript_'' @ strftime_file py start @ ''.txt'')
            in if \<not> path_exists fs output_dir \<and> print_raises os CreatedDirectory
               then (Inl UnicodeEncodeError, fs1)
               else if open_raises os then error_saving_transcript os fs1
               else
                 let chunks = write_transcript_content py start now L;
                     fs2 = fs1\<lparr>files := (files fs1)(filename \<mapsto>
                                   file_content (bytes_accepted os) chunks)\<rparr>
                 in if write_completes (bytes_accepted os) chunks \<and>
                       \<not> print_raises os TranscriptSavedTo \<and>
                       \<not> print_raises os TotalSegments \<and>
                       \<not> getsize_raises os \<and> \<not> print_raises os FileSize
                    then (Inr (Some filename), fs2)
                    else error_saving_transcript os fs2)"

section \<open>The live transcriber (whisper\_live\_faster.py, whisper\_live\_vad.py)\<close>

text \<open>
  \<^verbatim>\<open>FasterWhisperLiveTranscriber\<close> is modelled in full. \<^verbatim>\<open>VADLiveTranscriber\<close> has the
  same \<^verbatim>\<open>is_speech\<close> and \<^verbatim>\<open>record_audio_vad\<close>, the same loop condition in
  \<^verbatim>\<open>transcribe_worker\<close>, and a \<^verbatim>\<open>stop\<close> that ends after joining the two threads.

  A segment is the temporary WAV file that \<^verbatim>\<open>save_audio_segment\<close> writes: the frames
  handed to it, joined in order. The file name put on the queue is identified with these
  frames; writing the temporary file is taken to succeed.
\<close>

datatype 'f segment = Wav (wav_frames: "'f list")

definition save_audio_segment :: "'f list \<Rightarrow> 'f segment" where
  "save_audio_segment frames = Wav frames"

text \<open>A thread object: running, or finished (its target function has returned).\<close>

datatype thread = Alive | Finished

text \<open>
  What \<^verbatim>\<open>model.transcribe\<close> gives for one segment, with the segment texts already
  concatenated, together with the two clock readings the worker takes around the call.
\<close>

record 't transcription =
  res_text :: string
  res_language :: string
  res_language_probability :: rat
  res_clock :: 't
  res_elapsed :: rat

text \<open>
  The external services. \<open>None\<close> stands for the call raising an exception:
  the WebRTC classifier on a frame, the model constructor
  \<^verbatim>\<open>WhisperModel(model_name, device, compute_type)\<close>, and the transcription call.
\<close>

record ('f, 'm, 't) services =
  vad_is_speech :: "'f \<Rightarrow> bool option"
  WhisperModel :: "string \<Rightarrow> string \<Rightarrow> string \<Rightarrow> 'm option"
  model_transcribe :: "'m \<Rightarrow> 'f segment \<Rightarrow> 't transcription option"

record ('f, 'm, 't) transcriber =
  model_name :: string
  device :: string
  compute_type :: string
  vad_mode :: int
  model :: "'m option"
  is_recording :: bool
  ring_buffer :: "('f \<times> bool) list"
  triggered :: bool
  voiced_frames :: "'f list"
  transcription_times :: "rat list"
  total_segments :: nat
  transcript_logger :: "'t logger"
  audio_queue :: "'f segment list"
  transcription_thread :: "thread option"
  recording_thread :: "thread option"

definition frame_duration_ms :: nat where "frame_duration_ms = 30"
definition padding_duration_ms :: nat where "padding_duration_ms = 300"

definition ring_buffer_size :: nat where
  "ring_buffer_size = padding_duration_ms div frame_duration_ms"

definition FasterWhisperLiveTranscriber ::
  "string \<Rightarrow> string \<Rightarrow> string \<Rightarrow> int \<Rightarrow> ('f, 'm, 't) transcriber" where
  "FasterWhisperLiveTranscriber name dev ctype vmode =
     \<lparr>model_name = name, device = dev, compute_type = ctype, vad_mode = vmode, model = None,
      is_recording = False, ring_buffer = [], triggered = False, voiced_frames = [],
      transcription_times = [], total_segments = 0,
      transcript_logger = TranscriptLogger ''faster-whisper'' name,
      audio_queue = [], transcription_thread = None, recording_thread = None\<rparr>"

subsection \<open>load\_model and start\<close>

text \<open>
  \<^verbatim>\<open>load_model\<close>: the first component of the result is the exception that leaves the
  method, if any; the second is the object afterwards.
\<close>

definition load_model ::
  "('f, 'm, 't) services \<Rightarrow> ('f, 'm, 't) transcriber \<Rightarrow> error option \<times> ('f, 'm, 't) transcriber" where
  "load_model sv s =
     (case WhisperModel sv (model_name s) (device s) (compute_type s) of
        Some m \<Rightarrow> (None, s\<lparr>model := Some m\<rparr>)
      | None \<Rightarrow>
          let s1 = s\<lparr>device := ''cpu'', compute_type := ''int8''\<rparr>
          in case WhisperModel sv (model_name s) ''cpu'' ''int8'' of
               Some m \<Rightarrow> (None, s1\<lparr>model := Some m\<rparr>)
             | None \<Rightarrow> (Some ModelLoadError, s1))"

text \<open>
  \<^verbatim>\<open>start\<close>, up to the launch of the two threads (the main thread then sleeps until
  \<^verbatim>\<open>is_recording\<close> is cleared).
\<close>

definition start ::
  "('f, 'm, 't) services \<Rightarrow> 't \<Rightarrow> ('f, 'm, 't) transcriber \<Rightarrow> error option \<times> ('f, 'm, 't) transcriber" where
  "start sv now s =
     (case (if model s = None then load_model sv s else (None, s)) of
        (Some e, s1) \<Rightarrow> (Some e, s1)
      | (None, s1) \<Rightarrow>
          (None, s1\<lparr>transcript_logger :=
                      start_session now
                        [(''device'', PStr (device s1)), (''compute_type'', PStr (compute_type s1)),
                         (''vad_mode'', PInt (vad_mode s1))]
                        (transcript_logger s1),
                    is_recording := True,
                    recording_thread := Some Alive,
                    transcription_thread := Some Alive\<rparr>))"

subsection \<open>The speech segmenter\<close>

text \<open>\<^verbatim>\<open>is_speech\<close>: an exception of the classifier is caught and gives \<^verbatim>\<open>False\<close>.\<close>

definition is_speech :: "('f, 'm, 't) services \<Rightarrow> 'f \<Rightarrow> bool" where
  "is_speech sv frame = (case vad_is_speech sv frame of Some b \<Rightarrow> b | None \<Rightarrow> False)"

text \<open>\<^verbatim>\<open>collections.deque(maxlen=n).append(x)\<close>: the oldest entries fall out on the left.\<close>

definition deque_append :: "nat \<Rightarrow> 'a list \<Rightarrow> 'a \<Rightarrow> 'a list" where
  "deque_append maxlen d x = (let d' = d @ [x] in drop (length d' - maxlen) d')"

text \<open>
  The threshold \<^verbatim>\<open>0.9 * self.ring_buffer.maxlen\<close> is a product of doubles. The double
  nearest to 0.9 is \<open>8106479329266893 / 2^53\<close>; its exact product with 10 lies between 8
  and 16, where the doubles are the multiples of \<open>1 / 2^49\<close>, and is rounded to the nearest
  of them (ties to even). Python compares the integer count with this double exactly.
\<close>

definition double_0_9 :: rat where
  "double_0_9 = 8106479329266893 / 2 ^ 53"

definition round_half_even :: "rat \<Rightarrow> int" where
  "round_half_even x =
     (let k = \<lfloor>x\<rfloor>; r = x - of_int k
      in if r < 1 / 2 then k else if 1 / 2 < r then k + 1 else if even k then k else k + 1)"

definition vad_threshold :: rat where
  "vad_threshold =
     of_int (round_half_even (double_0_9 * of_nat ring_buffer_size * 2 ^ 49)) / 2 ^ 49"

definition num_voiced :: "('f \<times> bool) list \<Rightarrow> nat" where
  "num_voiced rb = length (filter (\<lambda>(f, speech). speech) rb)"

definition num_unvoiced :: "('f \<times> bool) list \<Rightarrow> nat" where
  "num_unvoiced rb = length (filter (\<lambda>(f, speech). \<not> speech) rb)"

text \<open>
  One iteration of the loop of \<^verbatim>\<open>record_audio_vad\<close>, for the frame read and its
  classification.
\<close>

definition process_frame ::
  "'f \<Rightarrow> bool \<Rightarrow> ('f, 'm, 't) transcriber \<Rightarrow> ('f, 'm, 't) transcriber" where
  "process_frame frame speech s =
     (if \<not> triggered s then
        let rb = deque_append ring_buffer_size (ring_buffer s) (frame, speech)
        in if vad_threshold < of_nat (num_voiced rb)
           then s\<lparr>ring_buffer := [], triggered := True,
                  voiced_frames := voiced_frames s @ map fst rb\<rparr>
           else s\<lparr>ring_buffer := rb\<rparr>
      else
        let vf = voiced_frames s @ [frame];
            rb = deque_append ring_buffer_size (ring_buffer s) (frame, speech)
        in if vad_threshold < of_nat (num_unvoiced rb)
           then s\<lparr>ring_buffer := [], triggered := False, voiced_frames := [],
                  audio_queue := (if 10 < length vf
                                  then audio_queue s @ [save_audio_segment vf]
                                  else audio_queue s)\<rparr>
           else s\<lparr>ring_buffer := rb, voiced_frames := vf\<rparr>)"

text \<open>
  What \<^verbatim>\<open>stream.read\<close> delivers: a frame, or an exception of the capture device. The
  list given to the loop holds the reads made while \<^verbatim>\<open>is_recording\<close> was seen set.
\<close>

datatype 'f read = Frame 'f | DeviceError

fun capture_loop ::
  "('f, 'm, 't) services \<Rightarrow> 'f read list \<Rightarrow> ('f, 'm, 't) transcriber \<Rightarrow> ('f, 'm, 't) transcriber" where
  "capture_loop sv [] s = s"
| "capture_loop sv (DeviceError # reads) s = s"
| "capture_loop sv (Frame frame # reads) s =
     capture_loop sv reads (process_frame frame (is_speech sv frame) s)"

text \<open>The frames actually read: those before the first device error.\<close>

fun frames_read :: "'f read list \<Rightarrow> 'f list" where
  "frames_read [] = []"
| "frames_read (DeviceError # reads) = []"
| "frames_read (Frame frame # reads) = frame # frames_read reads"

text \<open>The \<^verbatim>\<open>finally\<close> block of \<^verbatim>\<open>record_audio_vad\<close>, after the stream is closed.\<close>

definition flush_voiced_frames :: "('f, 'm, 't) transcriber \<Rightarrow> ('f, 'm, 't) transcriber" where
  "flush_voiced_frames s =
     (if voiced_frames s \<noteq> []
      then s\<lparr>audio_queue := audio_queue s @ [save_audio_segment (voiced_frames s)]\<rparr>
      else s)"

text \<open>
  \<^verbatim>\<open>record_audio_vad\<close>, the target of the recording thread. \<open>opened\<close> says whether
  opening the capture stream succeeded.
\<close>

definition record_audio_vad ::
  "('f, 'm, 't) services \<Rightarrow> bool \<Rightarrow> 'f read list \<Rightarrow> ('f, 'm, 't) transcriber \<Rightarrow> ('f, 'm, 't) transcriber" where
  "record_audio_vad sv opened reads s =
     flush_voiced_frames (if opened then capture_loop sv reads s else s)"

subsection \<open>The transcription worker\<close>

text \<open>
  One iteration of the loop of \<^verbatim>\<open>transcribe_worker\<close>. On an empty queue
  \<^verbatim>\<open>get(timeout=1)\<close> raises \<^verbatim>\<open>queue.Empty\<close> and the loop continues. An exception of
  the transcription call (also the one for a model that is not loaded) is caught and
  printed; the segment has left the queue by then. Console output and the removal of the
  temporary file are not part of the model.
\<close>

definition worker_iteration ::
  "'t pylib \<Rightarrow> ('f, 'm, 't) services \<Rightarrow> ('f, 'm, 't) transcriber \<Rightarrow> ('f, 'm, 't) transcriber" where
  "worker_iteration py sv s =
     (case audio_queue s of
        [] \<Rightarrow> s
      | audio_file # rest \<Rightarrow>
          let s1 = s\<lparr>audio_queue := rest\<rparr>
          in case (case model s1 of None \<Rightarrow> None | Some m \<Rightarrow> model_transcribe sv m audio_file) of
               None \<Rightarrow> s1
             | Some r \<Rightarrow>
                 let s2 = s1\<lparr>transcription_times := transcription_times s1 @ [res_elapsed r],
                             total_segments := total_segments s1 + 1\<rparr>;
                     txt = py_strip py (res_text r)
                 in if txt \<noteq> []
                    then s2\<lparr>transcript_logger :=
                              add_transcript py (res_clock r) txt
                                (Some (strftime_hms py (res_clock r)))
                                [(''language'', PStr (res_language r)),
                                 (''confidence'', PFloat (res_language_probability r)),
                                 (''duration'', PFloat (res_elapsed r))]
                                (transcript_logger s2)\<rparr>
                    else s2)"

text \<open>
  The loop of \<^verbatim>\<open>transcribe_worker\<close> run from its condition to its end while no other
  thread takes a step; this is what happens inside \<^verbatim>\<open>transcription_thread.join()\<close> once
  the recording thread has finished, when the main thread waits and only the worker
  runs. \<open>None\<close> is a loop that never ends. The steps of the worker among those of the
  other threads are given further down.
\<close>

partial_function (option) transcribe_worker ::
  "'t pylib \<Rightarrow> ('f, 'm, 't) services \<Rightarrow> ('f, 'm, 't) transcriber \<Rightarrow> ('f, 'm, 't) transcriber option" where
  "transcribe_worker py sv s =
     (if is_recording s \<or> audio_queue s \<noteq> []
      then transcribe_worker py sv (worker_iteration py sv s)
      else Some s)"

declare transcribe_worker.simps [code]

subsection \<open>stop\<close>

text \<open>The first lines of \<^verbatim>\<open>stop\<close>: clear the flag and process the final speech.\<close>

definition stop_flush :: "('f, 'm, 't) transcriber \<Rightarrow> ('f, 'm, 't) transcriber" where
  "stop_flush s =
     (let s1 = s\<lparr>is_recording := False\<rparr>
      in if voiced_frames s1 \<noteq> []
         then s1\<lparr>audio_queue := audio_queue s1 @ [save_audio_segment (voiced_frames s1)]\<rparr>
         else s1)"

text \<open>
  \<^verbatim>\<open>self.recording_thread.join()\<close>. A running recording thread finishes
  \<^verbatim>\<open>record_audio_vad\<close>: \<open>inflight\<close> holds the reads it still makes before it sees the
  cleared flag (none, or the one read it was blocked in), then its \<^verbatim>\<open>finally\<close> block
  runs. Joining a finished thread returns at once.
\<close>

definition join_recording ::
  "('f, 'm, 't) services \<Rightarrow> 'f read list \<Rightarrow> ('f, 'm, 't) transcriber \<Rightarrow> ('f, 'm, 't) transcriber" where
  "join_recording sv inflight s =
     (case recording_thread s of
        Some Alive \<Rightarrow>
          (flush_voiced_frames (capture_loop sv inflight s))\<lparr>recording_thread := Some Finished\<rparr>
      | _ \<Rightarrow> s)"

text \<open>\<^verbatim>\<open>self.transcription_thread.join()\<close>: a running worker runs its loop to the end.\<close>

definition join_transcription ::
  "'t pylib \<Rightarrow> ('f, 'm, 't) services \<Rightarrow> ('f, 'm, 't) transcriber \<Rightarrow> ('f, 'm, 't) transcriber option" where
  "join_transcription py sv s =
     (case transcription_thread s of
        Some Alive \<Rightarrow>
          map_option (\<lambda>s'. s'\<lparr>transcription_thread := Some Finished\<rparr>) (transcribe_worker py sv s)
      | _ \<Rightarrow> Some s)"

text \<open>
  \<^verbatim>\<open>stop\<close> up to the second join; this is all of \<^verbatim>\<open>VADLiveTranscriber.stop\<close>. It is
  the run in which the worker is still in its loop when it is joined: it takes no step
  between the clearing of the flag and the two flushes.
\<close>

definition stop_threads ::
  "'t pylib \<Rightarrow> ('f, 'm, 't) services \<Rightarrow> 'f read list \<Rightarrow> ('f, 'm, 't) transcriber
     \<Rightarrow> ('f, 'm, 't) transcriber option" where
  "stop_threads py sv inflight s =
     join_transcription py sv (join_recording sv inflight (stop_flush s))"

text \<open>
  \<^verbatim>\<open>FasterWhisperLiveTranscriber.stop\<close>: after the joins it stores the transcription
  times in the session metadata and saves the transcript to the directory
  \<^verbatim>\<open>transcripts\<close>. The result is \<open>None\<close> when a join never returns; otherwise the exception
  that leaves \<^verbatim>\<open>stop\<close> (if any), the object and the file system.
\<close>

definition stop ::
  "'t pylib \<Rightarrow> ('f, 'm, 't) services \<Rightarrow> os_outcome \<Rightarrow> 't \<Rightarrow> 'f read list
     \<Rightarrow> ('f, 'm, 't) transcriber \<times> fsys
     \<Rightarrow> (error option \<times> ('f, 'm, 't) transcriber \<times> fsys) option" where
  "stop py sv os now inflight sf =
     (case sf of (s, fs) \<Rightarrow>
        case stop_threads py sv inflight s of
          None \<Rightarrow> None
        | Some s1 \<Rightarrow>
            let L = (transcript_logger s1)
                      \<lparr>session_metadata :=
                         dict_set ''transcription_times''
                           (PList (map PFloat (transcription_times s1)))
                           (session_metadata (transcript_logger s1))\<rparr>;
                s2 = s1\<lparr>transcript_logger := L\<rparr>
            in case save_transcript py os now ''transcripts'' L fs of
                 (Inl e, fs') \<Rightarrow> Some (Some e, s2, fs')
               | (Inr r, fs') \<Rightarrow> Some (None, s2, fs'))"

subsection \<open>The three threads together\<close>

text \<open>
  While \<^verbatim>\<open>stop\<close> runs in the main thread, the recording thread and the transcription
  thread run too, and all three read and write the same object. A session holds the
  object, the place each thread has reached, and the reads the device will still
  deliver. A thread takes one step at a time: the worker evaluates its loop condition or
  runs the loop body; the recording thread evaluates its loop condition or completes a
  read and handles the frame; \<^verbatim>\<open>stop\<close> clears the flag, queues the final speech, and
  waits in each \<^verbatim>\<open>join\<close> until the thread has finished. A schedule says which thread
  takes the next step; a thread that is blocked or has finished does nothing.
\<close>

datatype worker_pc = WorkerGuard | WorkerBody
datatype recorder_pc = RecorderGuard | RecorderRead
datatype stop_pc = StopClear | StopFlush | StopJoinRecording | StopJoinTranscription | StopReturned
datatype thread_id = MainThread | RecordingThread | TranscriptionThread

record ('f, 'm, 't) session =
  shared :: "('f, 'm, 't) transcriber"
  worker_at :: worker_pc
  recorder_at :: recorder_pc
  stop_at :: stop_pc
  device_stream :: "'f read list"

text \<open>
  A step of \<^verbatim>\<open>transcribe_worker\<close>: at the loop condition it enters the body or leaves
  the loop, which ends the thread; in the body it runs one iteration.
\<close>

definition worker_step ::
  "'t pylib \<Rightarrow> ('f, 'm, 't) services \<Rightarrow> ('f, 'm, 't) session \<Rightarrow> ('f, 'm, 't) session" where
  "worker_step py sv c =
     (if transcription_thread (shared c) \<noteq> Some Alive then c
      else case worker_at c of
             WorkerGuard \<Rightarrow>
               if is_recording (shared c) \<or> audio_queue (shared c) \<noteq> []
               then c\<lparr>worker_at := WorkerBody\<rparr>
               else c\<lparr>shared := (shared c)\<lparr>transcription_thread := Some Finished\<rparr>\<rparr>
           | WorkerBody \<Rightarrow>
               c\<lparr>shared := worker_iteration py sv (shared c), worker_at := WorkerGuard\<rparr>)"

text \<open>
  A step of \<^verbatim>\<open>record_audio_vad\<close>. Leaving the loop, by a cleared flag or by an
  exception of the read, runs the \<^verbatim>\<open>finally\<close> block and ends the thread. With no frame
  to deliver the read blocks.
\<close>

definition recorder_finish :: "('f, 'm, 't) session \<Rightarrow> ('f, 'm, 't) session" where
  "recorder_finish c =
     c\<lparr>shared := (flush_voiced_frames (shared c))\<lparr>recording_thread := Some Finished\<rparr>\<rparr>"

definition recorder_step ::
  "('f, 'm, 't) services \<Rightarrow> ('f, 'm, 't) session \<Rightarrow> ('f, 'm, 't) session" where
  "recorder_step sv c =
     (if recording_thread (shared c) \<noteq> Some Alive then c
      else case recorder_at c of
             RecorderGuard \<Rightarrow>
               if is_recording (shared c) then c\<lparr>recorder_at := RecorderRead\<rparr>
               else recorder_finish c
           | RecorderRead \<Rightarrow>
               (case device_stream c of
                  [] \<Rightarrow> c
                | DeviceError # rest \<Rightarrow> recorder_finish (c\<lparr>device_stream := rest\<rparr>)
                | Frame frame # rest \<Rightarrow>
                    c\<lparr>shared := process_frame frame (is_speech sv frame) (shared c),
                      device_stream := rest, recorder_at := RecorderGuard\<rparr>))"

text \<open>A step of \<^verbatim>\<open>stop\<close>, up to the return of the second \<^verbatim>\<open>join\<close>.\<close>

definition stop_step :: "('f, 'm, 't) session \<Rightarrow> ('f, 'm, 't) session" where
  "stop_step c =
     (case stop_at c of
        StopClear \<Rightarrow> c\<lparr>shared := (shared c)\<lparr>is_recording := False\<rparr>, stop_at := StopFlush\<rparr>
      | StopFlush \<Rightarrow> c\<lparr>shared := flush_voiced_frames (shared c), stop_at := StopJoinRecording\<rparr>
      | StopJoinRecording \<Rightarrow>
          if recording_thread (shared c) = Some Alive then c
          else c\<lparr>stop_at := StopJoinTranscription\<rparr>
      | StopJoinTranscription \<Rightarrow>
          if transcription_thread (shared c) = Some Alive then c
          else c\<lparr>stop_at := StopReturned\<rparr>
      | StopReturned \<Rightarrow> c)"

fun thread_step ::
  "'t pylib \<Rightarrow> ('f, 'm, 't) services \<Rightarrow> thread_id \<Rightarrow> ('f, 'm, 't) session \<Rightarrow> ('f, 'm, 't) session" where
  "thread_step py sv MainThread c = stop_step c"
| "thread_step py sv RecordingThread c = recorder_step sv c"
| "thread_step py sv TranscriptionThread c = worker_step py sv c"

fun run_threads ::
  "'t pylib \<Rightarrow> ('f, 'm, 't) services \<Rightarrow> thread_id list \<Rightarrow> ('f, 'm, 't) session \<Rightarrow> ('f, 'm, 't) session" where
  "run_threads py sv [] c = c"
| "run_threads py sv (t # schedule) c = run_threads py sv schedule (thread_step py sv t c)"

text \<open>
  The session at the call of \<^verbatim>\<open>stop\<close>, with the worker and the recording thread at
  their loop conditions.
\<close>

definition stop_called :: "('f, 'm, 't) transcriber \<Rightarrow> 'f read list \<Rightarrow> ('f, 'm, 't) session" where
  "stop_called s reads =
     \<lparr>shared = s, worker_at = WorkerGuard, recorder_at = RecorderGuard, stop_at = StopClear,
      device_stream = reads\<rparr>"

section \<open>Invariant of the segmenter and example inputs\<close>

text \<open>
  What holds of the object while \<^verbatim>\<open>record_audio_vad\<close> runs on a fresh object, after
  the frames \<open>seen\<close> have been read: outside an utterance the utterance buffer is empty,
  the utterance buffer and the ring buffer hold the most recent frames, and every queued
  segment is a run of consecutive frames.
\<close>

definition segmenter_inv :: "'f list \<Rightarrow> ('f, 'm, 't) transcriber \<Rightarrow> bool" where
  "segmenter_inv seen s \<longleftrightarrow>
     (\<not> triggered s \<longrightarrow> voiced_frames s = []) \<and>
     suffix (voiced_frames s) seen \<and>
     suffix (map fst (ring_buffer s)) seen \<and>
     (\<forall>seg \<in> set (audio_queue s). sublist (wav_frames seg) seen)"

text \<open>
  The segmenter is inside an utterance and stays inside it while the frames \<open>gs\<close> are
  handled.
\<close>

fun stays_triggered ::
  "('f, 'm, 't) services \<Rightarrow> 'f list \<Rightarrow> ('f, 'm, 't) transcriber \<Rightarrow> bool" where
  "stays_triggered sv [] s = triggered s"
| "stays_triggered sv (g # gs) s =
     (triggered s \<and> stays_triggered sv gs (process_frame g (is_speech sv g) s))"

text \<open>
  Example services: the classifier rejects frame 0, fails on frame 99 and accepts every
  other frame; the model loads on the CPU with int8 only; every transcription succeeds.
\<close>

definition demo_services :: "(nat, unit, nat) services" where
  "demo_services =
     \<lparr>vad_is_speech = (\<lambda>f. if f = 0 then Some False else if f = 99 then None else Some True),
      WhisperModel = (\<lambda>name dev ctype. if dev = ''cpu'' \<and> ctype = ''int8'' then Some () else None),
      model_transcribe = (\<lambda>m seg. Some \<lparr>res_text = ''hello'', res_language = ''en'',
         res_language_probability = 1, res_clock = 0, res_elapsed = 1\<rparr>)\<rparr>"

definition nine_of_ten_reads :: "nat read list" where
  "nine_of_ten_reads = map Frame [0, 1, 2, 3, 4, 5, 6, 7, 8, 9]"

definition nine_voiced :: "(nat, unit, nat) transcriber" where
  "nine_voiced =
     capture_loop demo_services (map Frame [1, 2, 3, 4, 5, 6, 7, 8, 9])
       (FasterWhisperLiveTranscriber ''base'' ''cuda'' ''float16'' 2)"

definition nine_unvoiced :: "(nat, unit, nat) transcriber" where
  "nine_unvoiced =
     capture_loop demo_services
       (map Frame [1, 2, 3, 4, 5, 6, 7, 8, 9, 10, 0, 0, 0, 0, 0, 0, 0, 0, 0])
       (FasterWhisperLiveTranscriber ''base'' ''cuda'' ''float16'' 2)"

definition short_burst :: "(nat, unit, nat) transcriber" where
  "short_burst =
     (FasterWhisperLiveTranscriber ''base'' ''cuda'' ''float16'' 2)
       \<lparr>ring_buffer := [(1, False), (2, False), (3, False), (4, False), (5, False),
                        (6, False), (7, False), (8, False), (9, False)],
        triggered := True, voiced_frames := [7, 8, 9]\<rparr>"

definition demo_transcriber :: "(nat, unit, nat) transcriber" where
  "demo_transcriber = FasterWhisperLiveTranscriber ''base'' ''cuda'' ''float16'' 2"


text \<open>
  Example objects: idle after one rejected and nine accepted frames.
\<close>

definition one_of_ten_rejected :: "(nat, unit, nat) transcriber" where
  "one_of_ten_rejected = capture_loop demo_services nine_of_ten_reads demo_transcriber"

definition demo_pylib :: "nat pylib" where
  "demo_pylib = \<lparr>py_upper = id, py_title = id,
     py_str = (\<lambda>v. case v of PStr s \<Rightarrow> s | _ \<Rightarrow> ''?''),
     py_fmt2f = (\<lambda>v. case v of PFloat r \<Rightarrow> Some ''0.00'' | _ \<Rightarrow> None),
     py_avg2f = (\<lambda>v. case v of PList l \<Rightarrow> Some ''0.00'' | _ \<Rightarrow> None),
     strftime_file = (\<lambda>t. ''20240101_000000''), strftime_long = (\<lambda>t. ''2024-01-01 00:00:00''),
     strftime_hms = (\<lambda>t. ''00:00:00''), py_strip = id\<rparr>"

definition speaking :: "(nat, unit, nat) transcriber" where
  "speaking =
     capture_loop demo_services (map Frame [1, 2, 3, 4, 5, 6, 7, 8, 9, 10, 11, 12])
       (snd (start demo_services 0 demo_transcriber))"

definition stopped_once :: "(nat, unit, nat) transcriber" where
  "stopped_once =
     (case stop_threads demo_pylib demo_services [] speaking of Some s \<Rightarrow> s | None \<Rightarrow> speaking)"

definition demo_logger :: "nat logger" where
  "demo_logger = add_transcript demo_pylib 0 ''hello'' None []
     (start_session 0 [] (TranscriptLogger ''vad'' ''base''))"

definition os_fine :: os_outcome where
  "os_fine = \<lparr>makedirs_raises = False, open_raises = False, bytes_accepted = None,
               getsize_raises = False, print_raises = (\<lambda>m. False)\<rparr>"

definition empty_fs :: fsys where "empty_fs = \<lparr>dirs = {}, files = Map.empty\<rparr>"

section \<open>Properties of the transcript logger\<close>

lemma takeWhile_list_all: "list_all P xs \<Longrightarrow> takeWhile P xs = xs"
  by (induction xs) auto

lemma file_content_complete:
  assumes "write_completes limit chunks"
  shows "file_content limit chunks = concat (map the chunks)"
proof -
  from assms have tw: "takeWhile (\<lambda>c. c \<noteq> None) chunks = chunks"
    unfolding write_completes_def by (intro takeWhile_list_all) blast
  have r: "rendered_text chunks = concat (map the chunks)"
    unfolding rendered_text_def tw ..
  from assms have len: "\<And>k. limit = Some k \<Longrightarrow> length (rendered_text chunks) \<le> k"
    unfolding write_completes_def by simp
  show ?thesis
  proof (cases limit)
    case None
    then show ?thesis by (simp add: file_content_def r)
  next
    case (Some k)
    with len have "length (rendered_text chunks) \<le> k" by simp
    with Some show ?thesis by (simp add: file_content_def r)
  qed
qed

lemma file_content_prefix: "prefix (file_content limit chunks) (rendered_text chunks)"
  by (cases limit) (simp_all add: file_content_def take_is_prefix)

text \<open>
  C9 (amended). \<^verbatim>\<open>save_transcript\<close> writes no file whenever the entry list is empty or
  no session has been started, and it returns \<^verbatim>\<open>None\<close> then, provided its message can
  be printed. Otherwise, when the output directory exists or is created, the file is
  opened and written completely, its size is read and every message is printed, it
  returns the path of the written file, which holds the whole transcript text. When
  opening the file, writing it, reading its size or printing one of the messages after
  the write raises, the exception is caught and it returns \<^verbatim>\<open>None\<close>, provided the error
  message can be printed; the file, once opened, holds the accepted bytes of the text.
  When creating the directory or printing that it was created raises, the exception
  leaves the method. A message that cannot be printed before the \<^verbatim>\<open>try\<close> or in the
  handler makes the exception of \<^verbatim>\<open>print\<close> leave the method.
\<close>

theorem save_transcript_result:
  "(transcript_entries L = [] \<or> session_start_time L = None \<longrightarrow>
      snd (save_transcript py os now d L fs) = fs \<and>
      fst (save_transcript py os now d L fs) =
        (if print_raises os NoTranscriptToSave then Inl UnicodeEncodeError else Inr None))
   \<and> (transcript_entries L \<noteq> [] \<and> session_start_time L = Some began \<and>
        (path_exists fs d \<or> \<not> makedirs_raises os \<and> \<not> print_raises os CreatedDirectory) \<and>
        \<not> open_raises os \<and>
        write_completes (bytes_accepted os) (write_transcript_content py began now L) \<and>
        \<not> getsize_raises os \<and> \<not> print_raises os TranscriptSavedTo \<and>
        \<not> print_raises os TotalSegments \<and> \<not> print_raises os FileSize \<longrightarrow>
      fst (save_transcript py os now d L fs) =
        Inr (Some (path_join d (''transcript_'' @ strftime_file py began @ ''.txt''))) \<and>
      files (snd (save_transcript py os now d L fs))
        (path_join d (''transcript_'' @ strftime_file py began @ ''.txt'')) =
        Some (concat (map the (write_transcript_content py began now L))))
   \<and> (transcript_entries L \<noteq> [] \<and> session_start_time L = Some began \<and>
        (path_exists fs d \<or> \<not> makedirs_raises os \<and> \<not> print_raises os CreatedDirectory) \<and>
        (open_raises os \<or>
         \<not> write_completes (bytes_accepted os) (write_transcript_content py began now L) \<or>
         getsize_raises os \<or> print_raises os TranscriptSavedTo \<or>
         print_raises os TotalSegments \<or> print_raises os FileSize) \<longrightarrow>
      fst (save_transcript py os now d L fs) =
        (if print_raises os ErrorSavingTranscript then Inl UnicodeEncodeError else Inr None))
   \<and> (transcript_entries L \<noteq> [] \<and> session_start_time L = Some began \<and>
        (path_exists fs d \<or> \<not> makedirs_raises os \<and> \<not> print_raises os CreatedDirectory) \<and>
        \<not> open_raises os \<longrightarrow>
      files (snd (save_transcript py os now d L fs))
        (path_join d (''transcript_'' @ strftime_file py began @ ''.txt'')) =
        Some (file_content (bytes_accepted os) (write_transcript_content py began now L)) \<and>
      prefix (file_content (bytes_accepted os) (write_transcript_content py began now L))
        (rendered_text (write_transcript_content py began now L)))
   \<and> (transcript_entries L \<noteq> [] \<and> session_start_time L \<noteq> None \<and>
        \<not> path_exists fs d \<and> makedirs_raises os \<longrightarrow>
      save_transcript py os now d L fs = (Inl OSError, fs))
   \<and> (transcript_entries L \<noteq> [] \<and> session_start_time L \<noteq> None \<and>
        \<not> path_exists fs d \<and> \<not> makedirs_raises os \<and> print_raises os CreatedDirectory \<longrightarrow>
      save_transcript py os now d L fs =
        (Inl UnicodeEncodeError, fs\<lparr>dirs := insert d (dirs fs)\<rparr>))"
proof (intro conjI impI)
  assume a: "transcript_entries L = [] \<or> session_start_time L = None"
  then show "snd (save_transcript py os now d L fs) = fs"
    by (auto simp: save_transcript_def no_transcript_to_save_def split: option.splits)
  from a show "fst (save_transcript py os now d L fs) =
        (if print_raises os NoTranscriptToSave then Inl UnicodeEncodeError else Inr None)"
    by (auto simp: save_transcript_def no_transcript_to_save_def split: option.splits)
next
  assume h: "transcript_entries L \<noteq> [] \<and> session_start_time L = Some began \<and>
        (path_exists fs d \<or> \<not> makedirs_raises os \<and> \<not> print_raises os CreatedDirectory) \<and>
        \<not> open_raises os \<and>
        write_completes (bytes_accepted os) (write_transcript_content py began now L) \<and>
        \<not> getsize_raises os \<and> \<not> print_raises os TranscriptSavedTo \<and>
        \<not> print_raises os TotalSegments \<and> \<not> print_raises os FileSize"
  then show "fst (save_transcript py os now d L fs) =
        Inr (Some (path_join d (''transcript_'' @ strftime_file py began @ ''.txt'')))"
    by (auto simp: save_transcript_def Let_def)
  from h show "files (snd (save_transcript py os now d L fs))
        (path_join d (''transcript_'' @ strftime_file py began @ ''.txt'')) =
        Some (concat (map the (write_transcript_content py began now L)))"
    by (auto simp: save_transcript_def Let_def file_content_complete)
next
  assume "transcript_entries L \<noteq> [] \<and> session_start_time L = Some began \<and>
        (path_exists fs d \<or> \<not> makedirs_raises os \<and> \<not> print_raises os CreatedDirectory) \<and>
        (open_raises os \<or>
         \<not> write_completes (bytes_accepted os) (write_transcript_content py began now L) \<or>
         getsize_raises os \<or> print_raises os TranscriptSavedTo \<or>
         print_raises os TotalSegments \<or> print_raises os FileSize)"
  then show "fst (save_transcript py os now d L fs) =
        (if print_raises os ErrorSavingTranscript then Inl UnicodeEncodeError else Inr None)"
    by (auto simp: save_transcript_def error_saving_transcript_def Let_def)
next
  assume "transcript_entries L \<noteq> [] \<and> session_start_time L = Some began \<and>
        (path_exists fs d \<or> \<not> makedirs_raises os \<and> \<not> print_raises os CreatedDirectory) \<and>
        \<not> open_raises os"
  then show "files (snd (save_transcript py os now d L fs))
        (path_join d (''transcript_'' @ strftime_file py began @ ''.txt'')) =
        Some (file_content (bytes_accepted os) (write_transcript_content py began now L))"
    by (auto simp: save_transcript_def error_saving_transcript_def Let_def)
  show "prefix (file_content (bytes_accepted os) (write_transcript_content py began now L))
        (rendered_text (write_transcript_content py began now L))"
    by (rule file_content_prefix)
next
  assume "transcript_entries L \<noteq> [] \<and> session_start_time L \<noteq> None \<and>
        \<not> path_exists fs d \<and> makedirs_raises os"
  then show "save_transcript py os now d L fs = (Inl OSError, fs)"
    by (auto simp: save_transcript_def)
next
  assume "transcript_entries L \<noteq> [] \<and> session_start_time L \<noteq> None \<and>
        \<not> path_exists fs d \<and> \<not> makedirs_raises os \<and> print_raises os CreatedDirectory"
  then show "save_transcript py os now d L fs =
        (Inl UnicodeEncodeError, fs\<lparr>dirs := insert d (dirs fs)\<rparr>)"
    by (auto simp: save_transcript_def Let_def)
qed

text \<open>
  C9 as stated fails twice. With one entry and a started session, a file that cannot be
  opened makes \<^verbatim>\<open>save_transcript\<close> return \<^verbatim>\<open>None\<close>, not a path. With no entry, a
  console that cannot print the message makes it raise instead of returning \<^verbatim>\<open>None\<close>.
\<close>

theorem save_transcript_counterexample:
  "transcript_entries demo_logger \<noteq> [] \<and> session_start_time demo_logger \<noteq> None \<and>
   fst (save_transcript demo_pylib (os_fine\<lparr>open_raises := True\<rparr>) 0 ''transcripts''
          demo_logger empty_fs) = Inr None \<and>
   transcript_entries (TranscriptLogger ''vad'' ''base'' :: nat logger) = [] \<and>
   fst (save_transcript demo_pylib (os_fine\<lparr>print_raises := \<lambda>m. True\<rparr>) 0 ''transcripts''
          (TranscriptLogger ''vad'' ''base'') empty_fs) = Inl UnicodeEncodeError"
  by (simp add: save_transcript_def error_saving_transcript_def no_transcript_to_save_def
      demo_logger_def add_transcript_def start_session_def
      TranscriptLogger_def os_fine_def empty_fs_def path_exists_def)

theorem save_transcript_result_witness:
  "save_transcript demo_pylib os_fine 0 ''transcripts'' demo_logger empty_fs =
     (Inr (Some ''transcripts/transcript_20240101_000000.txt''),
      \<lparr>dirs = {''transcripts''},
       files = [''transcripts/transcript_20240101_000000.txt'' \<mapsto>
                  concat (map the (write_transcript_content demo_pylib 0 0 demo_logger))]\<rparr>) \<and>
   save_transcript demo_pylib os_fine 0 ''transcripts'' (TranscriptLogger ''vad'' ''base'') empty_fs =
     (Inr None, empty_fs) \<and>
   fst (save_transcript demo_pylib (os_fine\<lparr>open_raises := True\<rparr>) 0 ''transcripts''
          demo_logger empty_fs) = Inr None \<and>
   files (snd (save_transcript demo_pylib (os_fine\<lparr>bytes_accepted := Some 5\<rparr>) 0 ''transcripts''
          demo_logger empty_fs)) ''transcripts/transcript_20240101_000000.txt'' = Some ''====='' \<and>
   fst (save_transcript demo_pylib (os_fine\<lparr>bytes_accepted := Some 5\<rparr>) 0 ''transcripts''
          demo_logger empty_fs) = Inr None \<and>
   save_transcript demo_pylib (os_fine\<lparr>makedirs_raises := True\<rparr>) 0 ''transcripts''
          demo_logger empty_fs = (Inl OSError, empty_fs) \<and>
   save_transcript demo_pylib (os_fine\<lparr>print_raises := \<lambda>m. m = CreatedDirectory\<rparr>) 0
          ''transcripts'' demo_logger empty_fs =
     (Inl UnicodeEncodeError, empty_fs\<lparr>dirs := {''transcripts''}\<rparr>)"
proof -
  note r = save_transcript_result
  let ?chunks = "write_transcript_content demo_pylib 0 0 demo_logger"
  have e: "transcript_entries demo_logger \<noteq> []" and s: "session_start_time demo_logger = Some 0"
    by (simp_all add: demo_logger_def add_transcript_def start_session_def)
  have c: "list_all (\<lambda>c. c \<noteq> None) ?chunks"
    by (simp add: write_transcript_content_def header_lines_def
        metadata_lines_def stats_lines_def entry_lines_def demo_logger_def add_transcript_def
        start_session_def TranscriptLogger_def)
  then have w: "write_completes (bytes_accepted os_fine) ?chunks"
    by (simp add: write_completes_def os_fine_def)
  have five: "replicate 5 CHR ''='' = ''=====''"
    by (simp add: numeral_eq_Suc)
  have hd5: "take 5 (rendered_text ?chunks) = ''=====''" and long: "5 < length (rendered_text ?chunks)"
    by (simp_all add: rendered_text_def write_transcript_content_def header_lines_def five)
  from long have nw: "\<not> write_completes (Some 5) ?chunks"
    by (simp add: write_completes_def)
  have o: "\<not> makedirs_raises os_fine" "\<not> open_raises os_fine" "\<not> getsize_raises os_fine"
      "\<And>m. \<not> print_raises os_fine m" "bytes_accepted os_fine = None"
    by (simp_all add: os_fine_def)
  have n: "transcript_entries (TranscriptLogger ''vad'' ''base'' :: nat logger) = []"
    by (simp add: TranscriptLogger_def)
  have ne: "\<not> path_exists empty_fs ''transcripts''"
    by (simp add: path_exists_def empty_fs_def)
  have p: "path_join ''transcripts'' (''transcript_'' @ strftime_file demo_pylib (0::nat) @ ''.txt'')
           = ''transcripts/transcript_20240101_000000.txt''"
    by (simp add: path_join_def demo_pylib_def)
  from r [of demo_logger demo_pylib os_fine 0 "''transcripts''" empty_fs 0] e s w o p
  have 1: "fst (save_transcript demo_pylib os_fine 0 ''transcripts'' demo_logger empty_fs) =
     Inr (Some ''transcripts/transcript_20240101_000000.txt'')"
    by simp
  have dir_and_file: "snd (save_transcript demo_pylib os_fine 0 ''transcripts'' demo_logger empty_fs) =
      \<lparr>dirs = {''transcripts''},
       files = [''transcripts/transcript_20240101_000000.txt'' \<mapsto> concat (map the ?chunks)]\<rparr>"
    using e s w o p ne
    by (simp add: save_transcript_def Let_def file_content_complete empty_fs_def)
  from r [of "TranscriptLogger ''vad'' ''base''" demo_pylib os_fine 0 "''transcripts''" empty_fs] n o
  have 2: "save_transcript demo_pylib os_fine 0 ''transcripts'' (TranscriptLogger ''vad'' ''base'') empty_fs =
     (Inr None, empty_fs)"
    by (simp add: prod_eq_iff)
  from r [of demo_logger demo_pylib "os_fine\<lparr>open_raises := True\<rparr>" 0 "''transcripts''" empty_fs 0]
    e s o
  have 3: "fst (save_transcript demo_pylib (os_fine\<lparr>open_raises := True\<rparr>) 0 ''transcripts''
          demo_logger empty_fs) = Inr None"
    by simp
  from r [of demo_logger demo_pylib "os_fine\<lparr>bytes_accepted := Some 5\<rparr>" 0 "''transcripts''" empty_fs 0]
    e s o p nw hd5
  have 4: "files (snd (save_transcript demo_pylib (os_fine\<lparr>bytes_accepted := Some 5\<rparr>) 0 ''transcripts''
          demo_logger empty_fs)) ''transcripts/transcript_20240101_000000.txt'' = Some ''=====''"
    and 5: "fst (save_transcript demo_pylib (os_fine\<lparr>bytes_accepted := Some 5\<rparr>) 0 ''transcripts''
          demo_logger empty_fs) = Inr None"
    by (simp_all add: file_content_def)
  from r [of demo_logger demo_pylib "os_fine\<lparr>makedirs_raises := True\<rparr>" 0 "''transcripts''" empty_fs]
    e s ne
  have 6: "save_transcript demo_pylib (os_fine\<lparr>makedirs_raises := True\<rparr>) 0 ''transcripts''
          demo_logger empty_fs = (Inl OSError, empty_fs)"
    by simp
  from r [of demo_logger demo_pylib "os_fine\<lparr>print_raises := \<lambda>m. m = CreatedDirectory\<rparr>" 0
             "''transcripts''" empty_fs]
    e s ne o
  have 7: "save_transcript demo_pylib (os_fine\<lparr>print_raises := \<lambda>m. m = CreatedDirectory\<rparr>) 0
          ''transcripts'' demo_logger empty_fs =
     (Inl UnicodeEncodeError, empty_fs\<lparr>dirs := {''transcripts''}\<rparr>)"
    by (simp add: empty_fs_def)
  from 1 dir_and_file 2 3 4 5 6 7 show ?thesis by (simp add: prod_eq_iff)
qed

text \<open>
  C10. \<^verbatim>\<open>start_session\<close> resets the logger: the entry list becomes empty and the session
  metadata becomes exactly the supplied keyword metadata. The logger afterwards is the one
  obtained by starting the session on a freshly constructed logger, so the entries present
  before the call occur neither in the entry list after later additions nor in a
  transcript saved later.
\<close>

theorem start_session_resets:
  "transcript_entries (start_session now md L) = []
   \<and> session_metadata (start_session now md L) = md
   \<and> session_start_time (start_session now md L) = Some now
   \<and> start_session now md L =
       start_session now md (TranscriptLogger (tool_name L) (logger_model_name L))
   \<and> transcript_entries (add_transcripts py calls (start_session now md L)) =
       transcript_entries (add_transcripts py calls
         (start_session now md (TranscriptLogger (tool_name L) (logger_model_name L))))
   \<and> save_transcript py os later d (add_transcripts py calls (start_session now md L)) fs =
       save_transcript py os later d (add_transcripts py calls
         (start_session now md (TranscriptLogger (tool_name L) (logger_model_name L)))) fs"
proof -
  have "start_session now md L =
       start_session now md (TranscriptLogger (tool_name L) (logger_model_name L))"
    by (simp add: start_session_def TranscriptLogger_def)
  then show ?thesis by (simp add: start_session_def)
qed

section \<open>Properties of the speech segmenter\<close>

lemma ring_buffer_size_eq: "ring_buffer_size = 10"
  by (simp add: ring_buffer_size_def padding_duration_ms_def frame_duration_ms_def)

lemma vad_threshold_eq: "vad_threshold = 9"
proof -
  have x: "double_0_9 * of_nat ring_buffer_size * 2 ^ 49 = 40532396646334465 / 8"
    by (simp add: double_0_9_def ring_buffer_size_eq)
  have f: "\<lfloor>40532396646334465 / 8 :: rat\<rfloor> = 5066549580791808"
    by (rule floor_unique) simp_all
  have r: "round_half_even (40532396646334465 / 8) = 5066549580791808"
    unfolding round_half_even_def Let_def f by simp
  show ?thesis unfolding vad_threshold_def x r by simp
qed

lemma length_deque_append: "length (deque_append n d x) = min (Suc (length d)) n"
  by (auto simp: deque_append_def Let_def)


lemma length_filter_eq_length: "length (filter P xs) = length xs \<longleftrightarrow> (\<forall>x \<in> set xs. P x)"
proof
  assume eq: "length (filter P xs) = length xs"
  show "\<forall>x \<in> set xs. P x"
  proof
    fix x assume "x \<in> set xs"
    then show "P x" using length_filter_less [of x xs P] eq by auto
  qed
next
  assume "\<forall>x \<in> set xs. P x"
  then have "filter P xs = xs" by simp
  then show "length (filter P xs) = length xs" by simp
qed

lemma more_than_nine:
  assumes "length rb \<le> 10"
  shows "9 < length (filter P rb) \<longleftrightarrow> length rb = 10 \<and> (\<forall>x \<in> set rb. P x)"
proof -
  have le: "length (filter P rb) \<le> length rb" by (rule length_filter_le)
  show ?thesis
  proof
    assume "9 < length (filter P rb)"
    with le assms have "length rb = 10" and eq: "length (filter P rb) = length rb" by arith+
    moreover from eq have "\<forall>x \<in> set rb. P x" by (simp only: length_filter_eq_length)
    ultimately show "length rb = 10 \<and> (\<forall>x \<in> set rb. P x)" by blast
  next
    assume a: "length rb = 10 \<and> (\<forall>x \<in> set rb. P x)"
    then have "\<forall>x \<in> set rb. P x" by blast
    then have "length (filter P rb) = length rb" by (simp only: length_filter_eq_length)
    with a show "9 < length (filter P rb)" by simp
  qed
qed

lemma length_ring_le: "length (deque_append ring_buffer_size d x) \<le> 10"
  by (simp add: length_deque_append ring_buffer_size_eq)

lemma onset_iff:
  "\<not> triggered s \<Longrightarrow>
   triggered (process_frame f b s) \<longleftrightarrow>
     9 < num_voiced (deque_append ring_buffer_size (ring_buffer s) (f, b))"
  by (simp add: process_frame_def Let_def vad_threshold_eq)

lemma offset_iff:
  "triggered s \<Longrightarrow>
   \<not> triggered (process_frame f b s) \<longleftrightarrow>
     9 < num_unvoiced (deque_append ring_buffer_size (ring_buffer s) (f, b))"
  by (simp add: process_frame_def Let_def vad_threshold_eq)

text \<open>
  C2 (amended). The onset transition fires exactly when more than 90 percent of the ring
  buffer capacity, that is all 10 of the last 10 frames, are classified speech, and the
  offset transition fires exactly when all 10 of the last 10 frames of the ring buffer are
  classified non-speech. The count is compared with 0.9 times the capacity by a strict
  inequality, so 9 of 10 frames do not fire a transition.
\<close>

theorem onset_offset_need_all_ten:
  "(\<not> triggered s \<longrightarrow>
      (triggered (process_frame f b s) \<longleftrightarrow>
         9 < num_voiced (deque_append ring_buffer_size (ring_buffer s) (f, b))) \<and>
      (triggered (process_frame f b s) \<longleftrightarrow>
         length (deque_append ring_buffer_size (ring_buffer s) (f, b)) = 10 \<and>
         list_all snd (deque_append ring_buffer_size (ring_buffer s) (f, b))))
   \<and> (triggered s \<longrightarrow>
      (\<not> triggered (process_frame f b s) \<longleftrightarrow>
         9 < num_unvoiced (deque_append ring_buffer_size (ring_buffer s) (f, b))) \<and>
      (\<not> triggered (process_frame f b s) \<longleftrightarrow>
         length (deque_append ring_buffer_size (ring_buffer s) (f, b)) = 10 \<and>
         list_all (\<lambda>x. \<not> snd x) (deque_append ring_buffer_size (ring_buffer s) (f, b))))"
proof (intro conjI impI)
  assume n: "\<not> triggered s"
  show "triggered (process_frame f b s) \<longleftrightarrow>
         9 < num_voiced (deque_append ring_buffer_size (ring_buffer s) (f, b))"
    using n by (rule onset_iff)
  show "triggered (process_frame f b s) \<longleftrightarrow>
         length (deque_append ring_buffer_size (ring_buffer s) (f, b)) = 10 \<and>
         list_all snd (deque_append ring_buffer_size (ring_buffer s) (f, b))"
    using onset_iff [OF n, of f b]
      more_than_nine [OF length_ring_le, of "\<lambda>(f, speech). speech" "ring_buffer s" "(f, b)"]
    by (auto simp: num_voiced_def list_all_iff)
next
  assume t: "triggered s"
  show "\<not> triggered (process_frame f b s) \<longleftrightarrow>
         9 < num_unvoiced (deque_append ring_buffer_size (ring_buffer s) (f, b))"
    using t by (rule offset_iff)
  show "\<not> triggered (process_frame f b s) \<longleftrightarrow>
         length (deque_append ring_buffer_size (ring_buffer s) (f, b)) = 10 \<and>
         list_all (\<lambda>x. \<not> snd x) (deque_append ring_buffer_size (ring_buffer s) (f, b))"
    using offset_iff [OF t, of f b]
      more_than_nine [OF length_ring_le, of "\<lambda>(f, speech). \<not> speech" "ring_buffer s" "(f, b)"]
    by (auto simp: num_unvoiced_def list_all_iff)
qed


lemmas demo_simps =
  demo_services_def demo_transcriber_def FasterWhisperLiveTranscriber_def TranscriptLogger_def
  process_frame_def deque_append_def is_speech_def num_voiced_def num_unvoiced_def
  vad_threshold_eq ring_buffer_size_eq save_audio_segment_def Let_def

text \<open>
  C2 as stated fails: after one non-speech frame and nine speech frames the ring buffer
  holds 10 frames of which exactly 9 are voiced, and the segmenter is still idle.
\<close>

theorem nine_of_ten_counterexample:
  "length (ring_buffer (capture_loop demo_services nine_of_ten_reads demo_transcriber)) = 10 \<and>
   num_voiced (ring_buffer (capture_loop demo_services nine_of_ten_reads demo_transcriber)) = 9 \<and>
   \<not> triggered (capture_loop demo_services nine_of_ten_reads demo_transcriber)"
  by (simp add: nine_of_ten_reads_def demo_simps)

lemma nine_voiced_eq:
  "nine_voiced = (FasterWhisperLiveTranscriber ''base'' ''cuda'' ''float16'' 2)
     \<lparr>ring_buffer := [(1, True), (2, True), (3, True), (4, True), (5, True),
                      (6, True), (7, True), (8, True), (9, True)]\<rparr>"
  by (simp add: nine_voiced_def demo_simps)

lemma nine_unvoiced_eq:
  "nine_unvoiced = (FasterWhisperLiveTranscriber ''base'' ''cuda'' ''float16'' 2)
     \<lparr>ring_buffer := [(0, False), (0, False), (0, False), (0, False), (0, False),
                      (0, False), (0, False), (0, False), (0, False)],
      triggered := True,
      voiced_frames := [1, 2, 3, 4, 5, 6, 7, 8, 9, 10, 0, 0, 0, 0, 0, 0, 0, 0, 0]\<rparr>"
  by (simp add: nine_unvoiced_def demo_simps)

theorem onset_offset_need_all_ten_witness:
  "\<not> triggered nine_voiced \<and> triggered (process_frame 10 True nine_voiced) \<and>
   \<not> triggered (process_frame 0 False nine_voiced) \<and>
   triggered nine_unvoiced \<and> \<not> triggered (process_frame 0 False nine_unvoiced) \<and>
   triggered (process_frame 1 True nine_unvoiced)"
proof -
  have a: "\<not> triggered nine_voiced" and b: "triggered nine_unvoiced"
    by (simp_all add: nine_voiced_eq nine_unvoiced_eq FasterWhisperLiveTranscriber_def)
  have 1: "length (deque_append ring_buffer_size (ring_buffer nine_voiced) (10, True)) = 10 \<and>
           list_all snd (deque_append ring_buffer_size (ring_buffer nine_voiced) (10, True))"
    by (simp add: nine_voiced_eq deque_append_def ring_buffer_size_eq)
  have 2: "\<not> list_all snd (deque_append ring_buffer_size (ring_buffer nine_voiced) (0, False))"
    by (simp add: nine_voiced_eq deque_append_def ring_buffer_size_eq)
  have 3: "length (deque_append ring_buffer_size (ring_buffer nine_unvoiced) (0, False)) = 10 \<and>
           list_all (\<lambda>x. \<not> snd x)
             (deque_append ring_buffer_size (ring_buffer nine_unvoiced) (0, False))"
    by (simp add: nine_unvoiced_eq deque_append_def ring_buffer_size_eq)
  have 4: "\<not> list_all (\<lambda>x. \<not> snd x)
             (deque_append ring_buffer_size (ring_buffer nine_unvoiced) (1, True))"
    by (simp add: nine_unvoiced_eq deque_append_def ring_buffer_size_eq)
  from onset_offset_need_all_ten [of nine_voiced 10 True] a 1
  have c1: "triggered (process_frame 10 True nine_voiced)" by blast
  from onset_offset_need_all_ten [of nine_voiced 0 False] a 2
  have c2: "\<not> triggered (process_frame 0 False nine_voiced)" by blast
  from onset_offset_need_all_ten [of nine_unvoiced 0 False] b 3
  have c3: "\<not> triggered (process_frame 0 False nine_unvoiced)" by blast
  from onset_offset_need_all_ten [of nine_unvoiced 1 True] b 4
  have c4: "triggered (process_frame 1 True nine_unvoiced)" by blast
  from a b c1 c2 c3 c4 show ?thesis by blast
qed

lemma process_frame_queue:
  "\<exists>new. audio_queue (process_frame f b s) = audio_queue s @ new \<and>
         list_all (\<lambda>seg. 10 < length (wav_frames seg)) new"
  by (simp add: process_frame_def Let_def save_audio_segment_def)

lemma capture_loop_queue:
  "\<exists>new. audio_queue (capture_loop sv reads s) = audio_queue s @ new \<and>
         list_all (\<lambda>seg. 10 < length (wav_frames seg)) new"
proof (induction sv reads s rule: capture_loop.induct)
  case (1 sv s)
  show ?case by simp
next
  case (2 sv reads s)
  show ?case by simp
next
  case (3 sv frame reads s)
  obtain new1 where n1: "audio_queue (process_frame frame (is_speech sv frame) s) = audio_queue s @ new1"
      "list_all (\<lambda>seg. 10 < length (wav_frames seg)) new1"
    using process_frame_queue [of frame "is_speech sv frame" s] by auto
  from 3 obtain new2 where n2: "audio_queue (capture_loop sv (Frame frame # reads) s) =
      audio_queue (process_frame frame (is_speech sv frame) s) @ new2"
      "list_all (\<lambda>seg. 10 < length (wav_frames seg)) new2"
    by auto
  from n1 n2 have "audio_queue (capture_loop sv (Frame frame # reads) s) = audio_queue s @ (new1 @ new2)
     \<and> list_all (\<lambda>seg. 10 < length (wav_frames seg)) (new1 @ new2)"
    by simp
  then show ?case by blast
qed

text \<open>
  C5. For every sequence of reads, every segment that the capture loop puts on the queue
  has more than 10 frames. At an offset transition an utterance buffer of at most 10
  frames is discarded: nothing is queued and the buffers are cleared; a longer one is
  queued whole. (The flushes of \<^verbatim>\<open>stop\<close> and of the \<^verbatim>\<open>finally\<close> block are not part of
  the loop and have no such test.)
\<close>

theorem no_short_segment_at_offset:
  "(\<exists>new. audio_queue (capture_loop sv reads s) = audio_queue s @ new \<and>
          list_all (\<lambda>seg. 10 < length (wav_frames seg)) new)
   \<and> (triggered s \<and> \<not> triggered (process_frame f b s) \<and> length (voiced_frames s @ [f]) \<le> 10 \<longrightarrow>
        audio_queue (process_frame f b s) = audio_queue s \<and>
        voiced_frames (process_frame f b s) = [] \<and> ring_buffer (process_frame f b s) = [])
   \<and> (triggered s \<and> \<not> triggered (process_frame f b s) \<and> 10 < length (voiced_frames s @ [f]) \<longrightarrow>
        audio_queue (process_frame f b s) = audio_queue s @ [Wav (voiced_frames s @ [f])] \<and>
        voiced_frames (process_frame f b s) = [] \<and> ring_buffer (process_frame f b s) = [])"
proof (intro conjI)
  show "\<exists>new. audio_queue (capture_loop sv reads s) = audio_queue s @ new \<and>
          list_all (\<lambda>seg. 10 < length (wav_frames seg)) new"
    by (rule capture_loop_queue)
  show "triggered s \<and> \<not> triggered (process_frame f b s) \<and> length (voiced_frames s @ [f]) \<le> 10 \<longrightarrow>
        audio_queue (process_frame f b s) = audio_queue s \<and>
        voiced_frames (process_frame f b s) = [] \<and> ring_buffer (process_frame f b s) = []"
    by (auto simp: process_frame_def Let_def split: if_splits)
  show "triggered s \<and> \<not> triggered (process_frame f b s) \<and> 10 < length (voiced_frames s @ [f]) \<longrightarrow>
        audio_queue (process_frame f b s) = audio_queue s @ [Wav (voiced_frames s @ [f])] \<and>
        voiced_frames (process_frame f b s) = [] \<and> ring_buffer (process_frame f b s) = []"
    by (auto simp: process_frame_def Let_def save_audio_segment_def split: if_splits)
qed

theorem no_short_segment_at_offset_witness:
  "triggered short_burst \<and> \<not> triggered (process_frame 10 False short_burst) \<and>
   length (voiced_frames short_burst @ [10]) \<le> 10 \<and>
   audio_queue (process_frame 10 False short_burst) = audio_queue short_burst \<and>
   voiced_frames (process_frame 10 False short_burst) = [] \<and>
   triggered nine_unvoiced \<and> \<not> triggered (process_frame 0 False nine_unvoiced) \<and>
   audio_queue (process_frame 0 False nine_unvoiced) =
     [Wav [1, 2, 3, 4, 5, 6, 7, 8, 9, 10, 0, 0, 0, 0, 0, 0, 0, 0, 0, 0]]"
proof -
  have a: "triggered short_burst" "\<not> triggered (process_frame 10 False short_burst)"
      "length (voiced_frames short_burst @ [10]) \<le> 10"
    by (simp_all add: short_burst_def demo_simps)
  have b: "triggered nine_unvoiced" "\<not> triggered (process_frame 0 False nine_unvoiced)"
      "10 < length (voiced_frames nine_unvoiced @ [0])" "audio_queue nine_unvoiced = []"
      "voiced_frames nine_unvoiced = [1, 2, 3, 4, 5, 6, 7, 8, 9, 10, 0, 0, 0, 0, 0, 0, 0, 0, 0]"
    by (simp_all add: nine_unvoiced_eq demo_simps)
  from no_short_segment_at_offset [of demo_services "[]" short_burst 10 False] a
  have 1: "audio_queue (process_frame 10 False short_burst) = audio_queue short_burst \<and>
           voiced_frames (process_frame 10 False short_burst) = []"
    by blast
  from no_short_segment_at_offset [of demo_services "[]" nine_unvoiced 0 False] b(1,2,3)
  have "audio_queue (process_frame 0 False nine_unvoiced) =
          audio_queue nine_unvoiced @ [Wav (voiced_frames nine_unvoiced @ [0])]"
    by blast
  then have 2: "audio_queue (process_frame 0 False nine_unvoiced) =
     [Wav [1, 2, 3, 4, 5, 6, 7, 8, 9, 10, 0, 0, 0, 0, 0, 0, 0, 0, 0, 0]]"
    by (simp add: b(4,5))
  from a b(1,2) 1 2 show ?thesis by blast
qed

lemma map_fst_deque_append:
  "map fst (deque_append n rb (f, b)) = drop (Suc (length rb) - n) (map fst rb @ [f])"
proof -
  have "map fst (drop (Suc (length rb) - n) (rb @ [(f, b)])) =
        drop (Suc (length rb) - n) (map fst (rb @ [(f, b)]))"
    by (rule drop_map [symmetric])
  then show ?thesis
    unfolding deque_append_def Let_def by simp
qed

lemma suffix_ring_step:
  assumes "suffix (map fst rb) seen"
  shows "suffix (map fst (deque_append n rb (f, b))) (seen @ [f])"
proof -
  from assms have "suffix (map fst rb @ [f]) (seen @ [f])" by simp
  moreover have "suffix (drop (Suc (length rb) - n) (map fst rb @ [f])) (map fst rb @ [f])"
    by (rule suffix_drop)
  ultimately show ?thesis
    unfolding map_fst_deque_append by (rule suffix_order.trans [rotated])
qed

lemma sublist_snoc_right: "sublist xs ys \<Longrightarrow> sublist xs (ys @ [y])"
  by (auto simp: sublist_def) (metis append.assoc)

lemma process_frame_inv:
  assumes "segmenter_inv seen s"
  shows "segmenter_inv (seen @ [f]) (process_frame f b s)"
proof -
  from assms have nt: "\<not> triggered s \<Longrightarrow> voiced_frames s = []"
    and vf: "suffix (voiced_frames s) seen"
    and rb: "suffix (map fst (ring_buffer s)) seen"
    and q: "\<And>seg. seg \<in> set (audio_queue s) \<Longrightarrow> sublist (wav_frames seg) seen"
    by (auto simp: segmenter_inv_def)
  have rb': "suffix (map fst (deque_append ring_buffer_size (ring_buffer s) (f, b))) (seen @ [f])"
    using rb by (rule suffix_ring_step)
  have vf': "suffix (voiced_frames s @ [f]) (seen @ [f])"
    using vf by simp
  have q': "\<And>seg. seg \<in> set (audio_queue s) \<Longrightarrow> sublist (wav_frames seg) (seen @ [f])"
    using q by (blast intro: sublist_snoc_right)
  show ?thesis
  proof (cases "triggered s")
    case False
    with nt have e: "voiced_frames s = []" by simp
    from False e rb' q' show ?thesis
      by (auto simp: segmenter_inv_def process_frame_def Let_def)
  next
    case True
    from True rb' vf' q' show ?thesis
      by (auto simp: segmenter_inv_def process_frame_def Let_def save_audio_segment_def
          intro: suffix_imp_sublist)
  qed
qed

lemma capture_loop_inv:
  "segmenter_inv seen s \<Longrightarrow> segmenter_inv (seen @ frames_read reads) (capture_loop sv reads s)"
proof (induction sv reads s arbitrary: seen rule: capture_loop.induct)
  case (1 sv s)
  then show ?case by simp
next
  case (2 sv reads s)
  then show ?case by simp
next
  case (3 sv frame reads s)
  from 3(2) have "segmenter_inv (seen @ [frame]) (process_frame frame (is_speech sv frame) s)"
    by (rule process_frame_inv)
  from 3(1) [OF this] show ?case by simp
qed

lemma segmenter_inv_init: "segmenter_inv [] (FasterWhisperLiveTranscriber name dev ctype vmode)"
  by (simp add: segmenter_inv_def FasterWhisperLiveTranscriber_def)

lemma flush_inv: "segmenter_inv seen s \<Longrightarrow>
  \<forall>seg \<in> set (audio_queue (flush_voiced_frames s)). sublist (wav_frames seg) seen"
  by (auto simp: segmenter_inv_def flush_voiced_frames_def save_audio_segment_def)

lemma capture_loop_frames:
  "capture_loop sv (map Frame pre @ reads) s = capture_loop sv reads (capture_loop sv (map Frame pre) s)"
  by (induction pre arbitrary: s) simp_all

lemma one_of_ten_rejected_eq:
  "one_of_ten_rejected = (FasterWhisperLiveTranscriber ''base'' ''cuda'' ''float16'' 2)
     \<lparr>ring_buffer := [(0, False), (1, True), (2, True), (3, True), (4, True), (5, True),
                      (6, True), (7, True), (8, True), (9, True)]\<rparr>"
  by (simp add: one_of_ten_rejected_def nine_of_ten_reads_def demo_simps)

lemma inside_utterance:
  "triggered s \<Longrightarrow> triggered (process_frame f b s) \<Longrightarrow>
   voiced_frames (process_frame f b s) = voiced_frames s @ [f] \<and>
   audio_queue (process_frame f b s) = audio_queue s"
  by (auto simp: process_frame_def Let_def split: if_splits)

lemma offset_queues_whole_buffer:
  "triggered s \<Longrightarrow> \<not> triggered (process_frame f b s) \<Longrightarrow> 10 < length (voiced_frames s @ [f]) \<Longrightarrow>
   audio_queue (process_frame f b s) = audio_queue s @ [Wav (voiced_frames s @ [f])]"
  by (auto simp: process_frame_def Let_def save_audio_segment_def split: if_splits)

lemma onset_seeds_ring:
  assumes "\<not> triggered s" "triggered (process_frame f b s)"
  shows "voiced_frames (process_frame f b s) =
           voiced_frames s @ map fst (deque_append ring_buffer_size (ring_buffer s) (f, b))"
    and "ring_buffer (process_frame f b s) = []"
    and "audio_queue (process_frame f b s) = audio_queue s"
    and "length (deque_append ring_buffer_size (ring_buffer s) (f, b)) = ring_buffer_size"
    and "last (map fst (deque_append ring_buffer_size (ring_buffer s) (f, b))) = f"
proof -
  let ?rb = "deque_append ring_buffer_size (ring_buffer s) (f, b)"
  from assms show "voiced_frames (process_frame f b s) = voiced_frames s @ map fst ?rb"
    by (auto simp: process_frame_def Let_def split: if_splits)
  from assms show "ring_buffer (process_frame f b s) = []"
    by (auto simp: process_frame_def Let_def split: if_splits)
  from assms show "audio_queue (process_frame f b s) = audio_queue s"
    by (auto simp: process_frame_def Let_def split: if_splits)
  from assms have "9 < num_voiced ?rb" by (simp add: onset_iff)
  then have "length ?rb = 10"
    using more_than_nine [OF length_ring_le, of "\<lambda>(f, speech). speech" "ring_buffer s" "(f, b)"]
    by (simp add: num_voiced_def)
  then show "length ?rb = ring_buffer_size" by (simp add: ring_buffer_size_eq)
  have "map fst ?rb = drop (Suc (length (ring_buffer s)) - ring_buffer_size) (map fst (ring_buffer s) @ [f])"
    by (rule map_fst_deque_append)
  moreover have "Suc (length (ring_buffer s)) - ring_buffer_size < length (map fst (ring_buffer s) @ [f])"
    by (simp add: ring_buffer_size_eq)
  ultimately show "last (map fst ?rb) = f" by (simp add: last_drop)
qed

lemma stays_triggered_loop:
  "stays_triggered sv gs s \<Longrightarrow>
   triggered (capture_loop sv (map Frame gs) s) \<and>
   voiced_frames (capture_loop sv (map Frame gs) s) = voiced_frames s @ gs \<and>
   audio_queue (capture_loop sv (map Frame gs) s) = audio_queue s"
proof (induction gs arbitrary: s)
  case Nil
  then show ?case by simp
next
  case (Cons g gs)
  let ?s1 = "process_frame g (is_speech sv g) s"
  from Cons.prems have t: "triggered s" and st: "stays_triggered sv gs ?s1" by simp_all
  from st have t1: "triggered ?s1" by (cases gs) simp_all
  from inside_utterance [OF t t1] Cons.IH [OF st] show ?case by simp
qed

lemma whole_utterance:
  assumes idle: "\<not> triggered s" "voiced_frames s = []"
    and st: "stays_triggered sv gs (process_frame f (is_speech sv f) s)"
  shows "triggered (capture_loop sv (map Frame (f # gs)) s)"
    and "voiced_frames (capture_loop sv (map Frame (f # gs)) s) =
           map fst (deque_append ring_buffer_size (ring_buffer s) (f, is_speech sv f)) @ gs"
    and "audio_queue (capture_loop sv (map Frame (f # gs)) s) = audio_queue s"
    and "10 \<le> length (voiced_frames (capture_loop sv (map Frame (f # gs)) s))"
proof -
  let ?s1 = "process_frame f (is_speech sv f) s"
  let ?rb = "deque_append ring_buffer_size (ring_buffer s) (f, is_speech sv f)"
  from st have t1: "triggered ?s1" by (cases gs) simp_all
  note on = onset_seeds_ring [OF idle(1) t1]
  note loop = stays_triggered_loop [OF st]
  from loop show "triggered (capture_loop sv (map Frame (f # gs)) s)" by simp
  from loop on(1) idle(2)
  show v: "voiced_frames (capture_loop sv (map Frame (f # gs)) s) = map fst ?rb @ gs" by simp
  from loop on(3) show "audio_queue (capture_loop sv (map Frame (f # gs)) s) = audio_queue s" by simp
  from on(4) show "10 \<le> length (voiced_frames (capture_loop sv (map Frame (f # gs)) s))"
    unfolding v by (simp add: ring_buffer_size_eq)
qed

text \<open>
  C6. At the onset transition the utterance buffer is extended, in order, by every frame
  then in the ring buffer, whatever its classification, and the ring buffer is cleared;
  these are the last frames read, as many as the ring buffer holds, ending with the frame
  that crossed the threshold. Inside an utterance every frame is appended to the buffer,
  and the offset transition queues the whole buffer. So an utterance that starts from an
  idle segmenter is queued, at its offset or by the final flush, as one segment that holds
  the ring buffer lead-in followed by every later frame of the utterance, in arrival
  order. Every segment queued by \<^verbatim>\<open>record_audio_vad\<close> on a fresh object is a run of
  consecutive frames of the stream.
\<close>

theorem segments_keep_order_and_lead_in:
  "(\<not> triggered s \<and> triggered (process_frame f b s) \<longrightarrow>
      voiced_frames (process_frame f b s) =
        voiced_frames s @ map fst (deque_append ring_buffer_size (ring_buffer s) (f, b)) \<and>
      ring_buffer (process_frame f b s) = [] \<and>
      map fst (deque_append ring_buffer_size (ring_buffer s) (f, b)) =
        drop (Suc (length (ring_buffer s)) - ring_buffer_size) (map fst (ring_buffer s) @ [f]) \<and>
      length (deque_append ring_buffer_size (ring_buffer s) (f, b)) = ring_buffer_size \<and>
      last (map fst (deque_append ring_buffer_size (ring_buffer s) (f, b))) = f)
   \<and> (triggered s \<and> triggered (process_frame f b s) \<longrightarrow>
      voiced_frames (process_frame f b s) = voiced_frames s @ [f] \<and>
      audio_queue (process_frame f b s) = audio_queue s)
   \<and> (triggered s \<and> \<not> triggered (process_frame f b s) \<and> 10 < length (voiced_frames s @ [f]) \<longrightarrow>
      audio_queue (process_frame f b s) = audio_queue s @ [Wav (voiced_frames s @ [f])])
   \<and> (\<not> triggered s \<and> voiced_frames s = [] \<and>
       stays_triggered sv gs (process_frame f (is_speech sv f) s) \<and>
       \<not> triggered (capture_loop sv (map Frame (f # gs @ [h])) s) \<longrightarrow>
      audio_queue (capture_loop sv (map Frame (f # gs @ [h])) s) =
        audio_queue s @
        [Wav (map fst (deque_append ring_buffer_size (ring_buffer s) (f, is_speech sv f)) @ gs @ [h])])
   \<and> (\<not> triggered s \<and> voiced_frames s = [] \<and>
       stays_triggered sv gs (process_frame f (is_speech sv f) s) \<longrightarrow>
      audio_queue (record_audio_vad sv True (map Frame (f # gs)) s) =
        audio_queue s @
        [Wav (map fst (deque_append ring_buffer_size (ring_buffer s) (f, is_speech sv f)) @ gs)])
   \<and> list_all (\<lambda>seg. sublist (wav_frames seg) (frames_read reads))
        (audio_queue (record_audio_vad (sv :: ('f, 'm, 't) services) opened reads
           (FasterWhisperLiveTranscriber name dev ctype vmode)))"
proof (intro conjI impI)
  assume a: "\<not> triggered s \<and> triggered (process_frame f b s)"
  then have n: "\<not> triggered s" and t: "triggered (process_frame f b s)" by simp_all
  note on = onset_seeds_ring [OF n t]
  show "voiced_frames (process_frame f b s) =
        voiced_frames s @ map fst (deque_append ring_buffer_size (ring_buffer s) (f, b))"
    by (rule on(1))
  show "ring_buffer (process_frame f b s) = []" by (rule on(2))
  show "map fst (deque_append ring_buffer_size (ring_buffer s) (f, b)) =
        drop (Suc (length (ring_buffer s)) - ring_buffer_size) (map fst (ring_buffer s) @ [f])"
    by (rule map_fst_deque_append)
  show "length (deque_append ring_buffer_size (ring_buffer s) (f, b)) = ring_buffer_size"
    by (rule on(4))
  show "last (map fst (deque_append ring_buffer_size (ring_buffer s) (f, b))) = f"
    by (rule on(5))
next
  assume a: "triggered s \<and> triggered (process_frame f b s)"
  then show "voiced_frames (process_frame f b s) = voiced_frames s @ [f]"
    and "audio_queue (process_frame f b s) = audio_queue s"
    using inside_utterance [of s f b] by simp_all
next
  assume "triggered s \<and> \<not> triggered (process_frame f b s) \<and> 10 < length (voiced_frames s @ [f])"
  then show "audio_queue (process_frame f b s) = audio_queue s @ [Wav (voiced_frames s @ [f])]"
    using offset_queues_whole_buffer [of s f b] by simp
next
  assume a: "\<not> triggered s \<and> voiced_frames s = [] \<and>
       stays_triggered sv gs (process_frame f (is_speech sv f) s) \<and>
       \<not> triggered (capture_loop sv (map Frame (f # gs @ [h])) s)"
  let ?t = "capture_loop sv (map Frame (f # gs)) s"
  let ?rb = "deque_append ring_buffer_size (ring_buffer s) (f, is_speech sv f)"
  from a have idle: "\<not> triggered s" "voiced_frames s = []"
    and st: "stays_triggered sv gs (process_frame f (is_speech sv f) s)" by simp_all
  note u = whole_utterance [OF idle st]
  have split: "capture_loop sv (map Frame (f # gs @ [h])) s = process_frame h (is_speech sv h) ?t"
    using capture_loop_frames [of sv "f # gs" "[Frame h]" s] by simp
  with a have off: "\<not> triggered (process_frame h (is_speech sv h) ?t)" by simp
  from u(4) have long: "10 < length (voiced_frames ?t @ [h])" by simp
  from offset_queues_whole_buffer [OF u(1) off long] u(2,3) split
  show "audio_queue (capture_loop sv (map Frame (f # gs @ [h])) s) =
        audio_queue s @ [Wav (map fst ?rb @ gs @ [h])]"
    by simp
next
  assume a: "\<not> triggered s \<and> voiced_frames s = [] \<and>
       stays_triggered sv gs (process_frame f (is_speech sv f) s)"
  let ?rb = "deque_append ring_buffer_size (ring_buffer s) (f, is_speech sv f)"
  from a have idle: "\<not> triggered s" "voiced_frames s = []"
    and st: "stays_triggered sv gs (process_frame f (is_speech sv f) s)" by simp_all
  note u = whole_utterance [OF idle st]
  from u(4) have ne: "voiced_frames (capture_loop sv (map Frame (f # gs)) s) \<noteq> []" by auto
  from ne u(2,3)
  show "audio_queue (record_audio_vad sv True (map Frame (f # gs)) s) =
        audio_queue s @ [Wav (map fst ?rb @ gs)]"
    by (simp add: record_audio_vad_def flush_voiced_frames_def save_audio_segment_def)
next
  let ?init = "FasterWhisperLiveTranscriber name dev ctype vmode :: ('f, 'm, 't) transcriber"
  have "segmenter_inv ([] @ frames_read reads) (capture_loop sv reads ?init)"
    using segmenter_inv_init by (rule capture_loop_inv)
  then have 1: "\<forall>seg \<in> set (audio_queue (flush_voiced_frames (capture_loop sv reads ?init))).
      sublist (wav_frames seg) (frames_read reads)"
    using flush_inv by fastforce
  have 2: "audio_queue (flush_voiced_frames ?init) = []"
    by (simp add: flush_voiced_frames_def FasterWhisperLiveTranscriber_def)
  show "list_all (\<lambda>seg. sublist (wav_frames seg) (frames_read reads))
        (audio_queue (record_audio_vad sv opened reads ?init))"
    using 1 2 by (cases opened) (simp_all add: record_audio_vad_def list_all_iff)
qed

lemma onset_state_eq:
  "process_frame 10 True one_of_ten_rejected =
     (FasterWhisperLiveTranscriber ''base'' ''cuda'' ''float16'' 2)
       \<lparr>triggered := True, voiced_frames := [1, 2, 3, 4, 5, 6, 7, 8, 9, 10]\<rparr>"
  by (simp add: one_of_ten_rejected_eq demo_simps)

lemma st_long:
  "stays_triggered demo_services [11, 12, 0, 0, 0, 0, 0, 0, 0, 0, 0]
     (process_frame 10 True one_of_ten_rejected)"
  unfolding onset_state_eq by (simp add: demo_simps)

lemma before_offset_eq:
  "capture_loop demo_services (map Frame [11, 12, 0, 0, 0, 0, 0, 0, 0, 0, 0])
     (process_frame 10 True one_of_ten_rejected) =
     (FasterWhisperLiveTranscriber ''base'' ''cuda'' ''float16'' 2)
       \<lparr>ring_buffer := [(12, True), (0, False), (0, False), (0, False), (0, False), (0, False),
                        (0, False), (0, False), (0, False), (0, False)],
        triggered := True,
        voiced_frames := [1, 2, 3, 4, 5, 6, 7, 8, 9, 10, 11, 12, 0, 0, 0, 0, 0, 0, 0, 0, 0]\<rparr>"
  unfolding onset_state_eq by (simp add: demo_simps)


theorem segments_keep_order_and_lead_in_witness:
  "\<not> triggered one_of_ten_rejected \<and> voiced_frames one_of_ten_rejected = [] \<and>
   map fst (ring_buffer one_of_ten_rejected) = [0, 1, 2, 3, 4, 5, 6, 7, 8, 9] \<and>
   triggered (process_frame 10 True one_of_ten_rejected) \<and>
   voiced_frames (process_frame 10 True one_of_ten_rejected) = [1, 2, 3, 4, 5, 6, 7, 8, 9, 10] \<and>
   ring_buffer (process_frame 10 True one_of_ten_rejected) = [] \<and>
   voiced_frames (process_frame 11 True (process_frame 10 True one_of_ten_rejected)) =
     [1, 2, 3, 4, 5, 6, 7, 8, 9, 10, 11] \<and>
   audio_queue (capture_loop demo_services
       (map Frame (10 # [11, 12, 0, 0, 0, 0, 0, 0, 0, 0, 0] @ [0])) one_of_ten_rejected) =
     [Wav [1, 2, 3, 4, 5, 6, 7, 8, 9, 10, 11, 12, 0, 0, 0, 0, 0, 0, 0, 0, 0, 0]] \<and>
   audio_queue (record_audio_vad demo_services True (map Frame (10 # [11, 12])) one_of_ten_rejected) =
     [Wav [1, 2, 3, 4, 5, 6, 7, 8, 9, 10, 11, 12]] \<and>
   audio_queue (record_audio_vad demo_services True
       (nine_of_ten_reads @ map Frame [10, 11, 12, 0, 0, 0, 0, 0, 0, 0, 0, 0, 0])
       (FasterWhisperLiveTranscriber ''base'' ''cuda'' ''float16'' 2)) =
     [Wav [1, 2, 3, 4, 5, 6, 7, 8, 9, 10, 11, 12, 0, 0, 0, 0, 0, 0, 0, 0, 0, 0]] \<and>
   list_all (\<lambda>seg. sublist (wav_frames seg)
               (frames_read (nine_of_ten_reads @ map Frame [10, 11, 12, 0, 0, 0, 0, 0, 0, 0, 0, 0, 0])))
     (audio_queue (record_audio_vad demo_services True
       (nine_of_ten_reads @ map Frame [10, 11, 12, 0, 0, 0, 0, 0, 0, 0, 0, 0, 0])
       (FasterWhisperLiveTranscriber ''base'' ''cuda'' ''float16'' 2)))"
proof -
  let ?s = one_of_ten_rejected
  let ?s1 = "process_frame 10 True ?s"
  let ?t = "capture_loop demo_services (map Frame [11, 12, 0, 0, 0, 0, 0, 0, 0, 0, 0]) ?s1"
  let ?fresh = "FasterWhisperLiveTranscriber ''base'' ''cuda'' ''float16'' 2 :: (nat, unit, nat) transcriber"
  note e = one_of_ten_rejected_eq
  note T = segments_keep_order_and_lead_in
  have sp: "is_speech demo_services 10 = True" "is_speech demo_services 0 = False"
    by (simp_all add: is_speech_def demo_services_def)
  have idle: "\<not> triggered ?s" "voiced_frames ?s = []" "audio_queue ?s = []"
      "map fst (ring_buffer ?s) = [0, 1, 2, 3, 4, 5, 6, 7, 8, 9]"
    by (simp_all add: e FasterWhisperLiveTranscriber_def)
  have on: "triggered ?s1" by (simp add: onset_state_eq)
  have rb: "map fst (deque_append ring_buffer_size (ring_buffer ?s) (10, True)) =
      [1, 2, 3, 4, 5, 6, 7, 8, 9, 10]"
    by (simp add: e FasterWhisperLiveTranscriber_def deque_append_def ring_buffer_size_eq)
  have t2: "triggered (process_frame 11 True ?s1)"
    unfolding onset_state_eq by (simp add: demo_simps)
  have st: "stays_triggered demo_services [11, 12, 0, 0, 0, 0, 0, 0, 0, 0, 0]
              (process_frame 10 (is_speech demo_services 10) ?s)"
    unfolding sp by (rule st_long)
  have st2: "stays_triggered demo_services [11, 12] (process_frame 10 (is_speech demo_services 10) ?s)"
    unfolding sp onset_state_eq by (simp add: demo_simps)
  have sp1: "capture_loop demo_services
       (map Frame (10 # [11, 12, 0, 0, 0, 0, 0, 0, 0, 0, 0] @ [0])) ?s =
     process_frame 0 False ?t"
    using capture_loop_frames [of demo_services "10 # [11, 12, 0, 0, 0, 0, 0, 0, 0, 0, 0]" "[Frame 0]" ?s]
    by (simp add: sp)
  have last_step: "\<not> triggered (process_frame 0 False ?t)" "voiced_frames (process_frame 0 False ?t) = []"
    unfolding before_offset_eq by (simp_all add: demo_simps)
  from sp1 last_step have off: "\<not> triggered (capture_loop demo_services
       (map Frame (10 # [11, 12, 0, 0, 0, 0, 0, 0, 0, 0, 0] @ [0])) ?s)"
    and fl: "voiced_frames (capture_loop demo_services
       (map Frame (10 # [11, 12, 0, 0, 0, 0, 0, 0, 0, 0, 0] @ [0])) ?s) = []"
    by simp_all
  from T [of ?s 10 True] idle(1) on rb
  have c1: "voiced_frames ?s1 = [1, 2, 3, 4, 5, 6, 7, 8, 9, 10]" "ring_buffer ?s1 = []"
    by (simp_all add: idle(2))
  from T [of ?s1 11 True] on t2 c1(1)
  have c2: "voiced_frames (process_frame 11 True ?s1) = [1, 2, 3, 4, 5, 6, 7, 8, 9, 10, 11]"
    by simp
  from T [of ?s 10 True demo_services "[11, 12, 0, 0, 0, 0, 0, 0, 0, 0, 0]" 0] idle(1,2) st off
  have "audio_queue (capture_loop demo_services
       (map Frame (10 # [11, 12, 0, 0, 0, 0, 0, 0, 0, 0, 0] @ [0])) ?s) =
     audio_queue ?s @
     [Wav (map fst (deque_append ring_buffer_size (ring_buffer ?s) (10, is_speech demo_services 10))
           @ [11, 12, 0, 0, 0, 0, 0, 0, 0, 0, 0] @ [0])]"
    by blast
  then have c4: "audio_queue (capture_loop demo_services
       (map Frame (10 # [11, 12, 0, 0, 0, 0, 0, 0, 0, 0, 0] @ [0])) ?s) =
     [Wav [1, 2, 3, 4, 5, 6, 7, 8, 9, 10, 11, 12, 0, 0, 0, 0, 0, 0, 0, 0, 0, 0]]"
    unfolding sp rb idle(3) by simp
  from T [of ?s 10 True demo_services "[11, 12]"] idle(1,2) st2
  have "audio_queue (record_audio_vad demo_services True (map Frame (10 # [11, 12])) ?s) =
     audio_queue ?s @
     [Wav (map fst (deque_append ring_buffer_size (ring_buffer ?s) (10, is_speech demo_services 10))
           @ [11, 12])]"
    by blast
  then have c5: "audio_queue (record_audio_vad demo_services True (map Frame (10 # [11, 12])) ?s) =
     [Wav [1, 2, 3, 4, 5, 6, 7, 8, 9, 10, 11, 12]]"
    unfolding sp rb idle(3) by simp
  have "capture_loop demo_services
       (map Frame [0, 1, 2, 3, 4, 5, 6, 7, 8, 9] @
        map Frame (10 # [11, 12, 0, 0, 0, 0, 0, 0, 0, 0, 0] @ [0])) ?fresh =
     capture_loop demo_services (map Frame (10 # [11, 12, 0, 0, 0, 0, 0, 0, 0, 0, 0] @ [0]))
       (capture_loop demo_services (map Frame [0, 1, 2, 3, 4, 5, 6, 7, 8, 9]) ?fresh)"
    by (rule capture_loop_frames)
  then have run: "capture_loop demo_services
       (nine_of_ten_reads @ map Frame [10, 11, 12, 0, 0, 0, 0, 0, 0, 0, 0, 0, 0]) ?fresh =
     capture_loop demo_services (map Frame (10 # [11, 12, 0, 0, 0, 0, 0, 0, 0, 0, 0] @ [0])) ?s"
    unfolding one_of_ten_rejected_def nine_of_ten_reads_def demo_transcriber_def
    by (simp only: append.simps)
  have c6: "audio_queue (record_audio_vad demo_services True
       (nine_of_ten_reads @ map Frame [10, 11, 12, 0, 0, 0, 0, 0, 0, 0, 0, 0, 0]) ?fresh) =
     [Wav [1, 2, 3, 4, 5, 6, 7, 8, 9, 10, 11, 12, 0, 0, 0, 0, 0, 0, 0, 0, 0, 0]]"
    unfolding record_audio_vad_def flush_voiced_frames_def if_True run
    using c4 fl by simp
  from T [of _ _ _ demo_services _ _
            "nine_of_ten_reads @ map Frame [10, 11, 12, 0, 0, 0, 0, 0, 0, 0, 0, 0, 0]"
            True "''base''" "''cuda''" "''float16''" 2]
  have c7: "list_all (\<lambda>seg. sublist (wav_frames seg)
               (frames_read (nine_of_ten_reads @ map Frame [10, 11, 12, 0, 0, 0, 0, 0, 0, 0, 0, 0, 0])))
     (audio_queue (record_audio_vad demo_services True
       (nine_of_ten_reads @ map Frame [10, 11, 12, 0, 0, 0, 0, 0, 0, 0, 0, 0, 0]) ?fresh))"
    by blast
  from idle(1,2,4) on c1 c2 c4 c5 c6 c7 show ?thesis by blast
qed

text \<open>
  C8. When the classifier raises on a frame, \<^verbatim>\<open>is_speech\<close> returns \<^verbatim>\<open>False\<close> for it,
  and the capture loop handles the frame as a non-speech frame and goes on with the reads
  that follow.
\<close>

theorem classifier_failure_is_non_speech:
  "vad_is_speech sv f = None \<Longrightarrow>
     is_speech sv f = False \<and>
     capture_loop sv (map Frame pre @ Frame f # rest) s =
       capture_loop sv rest (process_frame f False (capture_loop sv (map Frame pre) s))"
  by (simp add: capture_loop_frames is_speech_def)

theorem classifier_failure_is_non_speech_witness:
  "vad_is_speech demo_services 99 = None \<and> is_speech demo_services 99 = False \<and>
   capture_loop demo_services (map Frame [1, 2] @ Frame 99 # [Frame 3]) demo_transcriber =
     capture_loop demo_services [Frame 3]
       (process_frame 99 False (capture_loop demo_services (map Frame [1, 2]) demo_transcriber)) \<and>
   ring_buffer (capture_loop demo_services (map Frame [1, 2] @ Frame 99 # [Frame 3]) demo_transcriber)
     = [(1, True), (2, True), (99, False), (3, True)]"
proof -
  have h: "vad_is_speech demo_services 99 = None" by (simp add: demo_services_def)
  have r: "ring_buffer (capture_loop demo_services [Frame 3]
       (process_frame 99 False (capture_loop demo_services (map Frame [1, 2]) demo_transcriber)))
     = [(1, True), (2, True), (99, False), (3, True)]"
    by (simp add: demo_simps)
  from classifier_failure_is_non_speech [OF h, of "[1, 2]" "[Frame 3]" demo_transcriber] h r
  show ?thesis by simp
qed

section \<open>Properties of load\_model and start\<close>

text \<open>
  C4 (amended). When loading the model with the configured device and compute type
  fails, \<^verbatim>\<open>load_model\<close> sets the device to \<^verbatim>\<open>cpu\<close> and the compute type to
  \<^verbatim>\<open>int8\<close> and loads the model once more with them. When this second load succeeds,
  \<^verbatim>\<open>load_model\<close> returns normally and \<^verbatim>\<open>start\<close> goes on to record with the fallback
  configuration; only when it fails too does the failure leave \<^verbatim>\<open>load_model\<close> and
  \<^verbatim>\<open>start\<close>, before the session is started.
\<close>

theorem load_model_falls_back_to_cpu:
  "WhisperModel sv (model_name s) (device s) (compute_type s) = None \<Longrightarrow>
     load_model sv s =
       (case WhisperModel sv (model_name s) ''cpu'' ''int8'' of
          Some m \<Rightarrow> (None, s\<lparr>device := ''cpu'', compute_type := ''int8'', model := Some m\<rparr>)
        | None \<Rightarrow> (Some ModelLoadError, s\<lparr>device := ''cpu'', compute_type := ''int8''\<rparr>))
     \<and> (model s = None \<and> WhisperModel sv (model_name s) ''cpu'' ''int8'' = None \<longrightarrow>
          start sv now s = (Some ModelLoadError, s\<lparr>device := ''cpu'', compute_type := ''int8''\<rparr>))
     \<and> (\<forall>m. model s = None \<and> WhisperModel sv (model_name s) ''cpu'' ''int8'' = Some m \<longrightarrow>
          fst (start sv now s) = None \<and> is_recording (snd (start sv now s)) \<and>
          device (snd (start sv now s)) = ''cpu'' \<and> compute_type (snd (start sv now s)) = ''int8'' \<and>
          model (snd (start sv now s)) = Some m)"
  by (auto simp: load_model_def start_def Let_def split: option.splits)

text \<open>
  C4 as stated fails: with a model that cannot be loaded on \<^verbatim>\<open>cuda\<close> with
  \<^verbatim>\<open>float16\<close>, \<^verbatim>\<open>load_model\<close> does not fail but falls back to \<^verbatim>\<open>cpu\<close> and
  \<^verbatim>\<open>int8\<close> by itself, and \<^verbatim>\<open>start\<close> starts recording.
\<close>

theorem load_model_fallback_counterexample:
  "WhisperModel demo_services (model_name demo_transcriber) (device demo_transcriber)
     (compute_type demo_transcriber) = None \<and>
   fst (load_model demo_services demo_transcriber) = None \<and>
   device (snd (load_model demo_services demo_transcriber)) = ''cpu'' \<and>
   compute_type (snd (load_model demo_services demo_transcriber)) = ''int8'' \<and>
   model (snd (load_model demo_services demo_transcriber)) = Some () \<and>
   fst (start demo_services 0 demo_transcriber) = None \<and>
   is_recording (snd (start demo_services 0 demo_transcriber))"
  by (simp add: load_model_def start_def demo_services_def demo_transcriber_def
      FasterWhisperLiveTranscriber_def)

theorem load_model_falls_back_to_cpu_witness:
  "WhisperModel demo_services (model_name demo_transcriber) (device demo_transcriber)
     (compute_type demo_transcriber) = None \<and>
   load_model demo_services demo_transcriber =
     (None, demo_transcriber\<lparr>device := ''cpu'', compute_type := ''int8'', model := Some ()\<rparr>) \<and>
   load_model (demo_services\<lparr>WhisperModel := \<lambda>name dev ctype. None\<rparr>) demo_transcriber =
     (Some ModelLoadError, demo_transcriber\<lparr>device := ''cpu'', compute_type := ''int8''\<rparr>) \<and>
   start (demo_services\<lparr>WhisperModel := \<lambda>name dev ctype. None\<rparr>) 0 demo_transcriber =
     (Some ModelLoadError, demo_transcriber\<lparr>device := ''cpu'', compute_type := ''int8''\<rparr>)"
proof -
  have h: "WhisperModel demo_services (model_name demo_transcriber) (device demo_transcriber)
     (compute_type demo_transcriber) = None"
    by (simp add: demo_services_def demo_transcriber_def FasterWhisperLiveTranscriber_def)
  have c: "WhisperModel demo_services (model_name demo_transcriber) ''cpu'' ''int8'' = Some ()"
    by (simp add: demo_services_def)
  have h': "WhisperModel (demo_services\<lparr>WhisperModel := \<lambda>name dev ctype. None\<rparr>)
     (model_name demo_transcriber) (device demo_transcriber) (compute_type demo_transcriber) = None"
    by simp
  have m: "model demo_transcriber = None"
    by (simp add: demo_transcriber_def FasterWhisperLiveTranscriber_def)
  from load_model_falls_back_to_cpu [OF h, of 0] c
  have 1: "load_model demo_services demo_transcriber =
     (None, demo_transcriber\<lparr>device := ''cpu'', compute_type := ''int8'', model := Some ()\<rparr>)"
    by simp
  from load_model_falls_back_to_cpu [OF h', of 0] m
  have 2: "load_model (demo_services\<lparr>WhisperModel := \<lambda>name dev ctype. None\<rparr>) demo_transcriber =
     (Some ModelLoadError, demo_transcriber\<lparr>device := ''cpu'', compute_type := ''int8''\<rparr>) \<and>
   start (demo_services\<lparr>WhisperModel := \<lambda>name dev ctype. None\<rparr>) 0 demo_transcriber =
     (Some ModelLoadError, demo_transcriber\<lparr>device := ''cpu'', compute_type := ''int8''\<rparr>)"
    by simp
  from h 1 2 show ?thesis by blast
qed

text \<open>
  The example object inside an utterance: started, then twelve speech frames read.
\<close>

lemma speaking_eq:
  "speaking =
     (FasterWhisperLiveTranscriber ''base'' ''cpu'' ''int8'' 2)
       \<lparr>model := Some (), is_recording := True, ring_buffer := [(11, True), (12, True)],
        triggered := True, voiced_frames := [1, 2, 3, 4, 5, 6, 7, 8, 9, 10, 11, 12],
        transcript_logger :=
          \<lparr>tool_name = ''faster-whisper'', logger_model_name = ''base'',
           session_start_time = Some 0, transcript_entries = [],
           session_metadata =
             [(''device'', PStr ''cpu''), (''compute_type'', PStr ''int8''), (''vad_mode'', PInt 2)]\<rparr>,
        transcription_thread := Some Alive, recording_thread := Some Alive\<rparr>"
  by (simp add: speaking_def start_def load_model_def start_session_def demo_simps)

section \<open>Properties of the transcription worker\<close>

lemma worker_iteration_is_recording [simp]:
  "is_recording (worker_iteration py sv s) = is_recording s"
  by (simp add: worker_iteration_def Let_def split: list.splits option.splits)

lemma worker_iteration_queue [simp]:
  "audio_queue (worker_iteration py sv s) = tl (audio_queue s)"
  by (simp add: worker_iteration_def Let_def split: list.splits option.splits)

lemma worker_iteration_model [simp]:
  "model (worker_iteration py sv s) = model s"
  by (simp add: worker_iteration_def Let_def split: list.splits option.splits)

lemma transcribe_worker_drains:
  "\<not> is_recording s \<Longrightarrow>
   transcribe_worker py sv s = Some ((worker_iteration py sv ^^ length (audio_queue s)) s)"
proof (induction "length (audio_queue s)" arbitrary: s)
  case 0
  then show ?case by (simp add: transcribe_worker.simps)
next
  case (Suc n)
  from Suc(2) have ne: "audio_queue s \<noteq> []" by auto
  from Suc(2) have len: "n = length (audio_queue (worker_iteration py sv s))" by simp
  from Suc(3) have nr: "\<not> is_recording (worker_iteration py sv s)" by simp
  have "transcribe_worker py sv s = transcribe_worker py sv (worker_iteration py sv s)"
    using ne by (subst transcribe_worker.simps) simp
  also have "\<dots> = Some ((worker_iteration py sv ^^ n) (worker_iteration py sv s))"
    using Suc(1) [OF len nr] len by simp
  also have "\<dots> = Some ((worker_iteration py sv ^^ length (audio_queue s)) s)"
    using Suc(2) [symmetric] by (simp add: funpow_swap1)
  finally show ?case .
qed

lemma transcribe_worker_exit:
  assumes "transcribe_worker (py :: 't pylib) (sv :: ('f, 'm, 't) services) s = Some s'"
  shows "\<not> is_recording s \<and> \<not> is_recording s' \<and> audio_queue s' = []"
proof (rule transcribe_worker.raw_induct
    [where P = "\<lambda>py sv s s'. \<not> is_recording s \<and> \<not> is_recording s' \<and> audio_queue s' = []"])
  show "transcribe_worker py sv s = Some s'" by fact
next
  fix tw :: "'t pylib \<Rightarrow> ('f, 'm, 't) services \<Rightarrow> ('f, 'm, 't) transcriber \<Rightarrow> ('f, 'm, 't) transcriber option"
  fix py sv s s'
  assume ih: "\<And>py sv s s'. tw py sv s = Some s' \<Longrightarrow>
                \<not> is_recording s \<and> \<not> is_recording s' \<and> audio_queue s' = []"
    and eq: "(if is_recording s \<or> audio_queue s \<noteq> []
              then tw py sv (worker_iteration py sv s) else Some s) = Some s'"
  show "\<not> is_recording s \<and> \<not> is_recording s' \<and> audio_queue s' = []"
  proof (cases "is_recording s \<or> audio_queue s \<noteq> []")
    case True
    with eq have "tw py sv (worker_iteration py sv s) = Some s'" by simp
    from ih [OF this] show ?thesis by simp
  next
    case False
    with eq show ?thesis by auto
  qed
qed

lemma transcribe_worker_recording:
  "is_recording s \<Longrightarrow> transcribe_worker py sv s = None"
  using transcribe_worker_exit [of py sv s] by (cases "transcribe_worker py sv s") auto

lemma funpow_worker_model [simp]: "model ((worker_iteration py sv ^^ n) s) = model s"
  by (induction n) simp_all

lemma funpow_worker_is_recording [simp]:
  "is_recording ((worker_iteration py sv ^^ n) s) = is_recording s"
  by (induction n) simp_all

lemma funpow_worker_queue: "audio_queue ((worker_iteration py sv ^^ n) s) = drop n (audio_queue s)"
  by (induction n) (simp_all add: drop_Suc tl_drop)

lemma worker_iteration_total:
  "audio_queue s = seg # rest \<Longrightarrow> model s = Some m \<Longrightarrow> model_transcribe sv m seg \<noteq> None \<Longrightarrow>
   total_segments (worker_iteration py sv s) = Suc (total_segments s)"
  by (auto simp: worker_iteration_def Let_def)

lemma funpow_worker_total:
  "model s = Some m \<Longrightarrow> n \<le> length (audio_queue s) \<Longrightarrow>
   list_all (\<lambda>seg. model_transcribe sv m seg \<noteq> None) (audio_queue s) \<Longrightarrow>
   total_segments ((worker_iteration py sv ^^ n) s) = total_segments s + n"
proof (induction n)
  case 0
  show ?case by simp
next
  case (Suc n)
  let ?s = "(worker_iteration py sv ^^ n) s"
  from Suc have ih: "total_segments ?s = total_segments s + n" by simp
  from Suc(3) have q: "audio_queue ?s = (audio_queue s ! n) # drop (Suc n) (audio_queue s)"
    by (simp add: funpow_worker_queue Cons_nth_drop_Suc)
  from Suc(3,4) have ok: "model_transcribe sv m (audio_queue s ! n) \<noteq> None"
    by (simp add: list_all_length)
  from Suc(2) have m: "model ?s = Some m" by simp
  from worker_iteration_total [OF q m ok] ih show ?case by simp
qed

lemma run_threads_append:
  "run_threads py sv (a @ b) c = run_threads py sv b (run_threads py sv a c)"
  by (induction a arbitrary: c) simp_all

lemma worker_iteration_threads [simp]:
  "transcription_thread (worker_iteration py sv s) = transcription_thread s"
  "recording_thread (worker_iteration py sv s) = recording_thread s"
  by (simp_all add: worker_iteration_def Let_def split: list.splits option.splits)

lemma worker_exit_step:
  "transcription_thread (shared c) = Some Alive \<Longrightarrow>
   transcription_thread (shared (worker_step py sv c)) = Some Finished \<Longrightarrow>
   worker_at c = WorkerGuard \<and> \<not> is_recording (shared c) \<and> audio_queue (shared c) = []"
  by (cases "worker_at c") (auto simp: worker_step_def split: if_splits)

lemma worker_alone:
  "transcription_thread (shared c) = Some Alive \<Longrightarrow> worker_at c = WorkerGuard \<Longrightarrow>
   \<not> is_recording (shared c) \<Longrightarrow>
   run_threads py sv (replicate (2 * length (audio_queue (shared c)) + 1) TranscriptionThread) c =
     c\<lparr>shared := ((worker_iteration py sv ^^ length (audio_queue (shared c))) (shared c))
                    \<lparr>transcription_thread := Some Finished\<rparr>\<rparr>"
proof (induction "length (audio_queue (shared c))" arbitrary: c)
  case 0
  then show ?case by (simp add: worker_step_def)
next
  case (Suc n)
  let ?c2 = "c\<lparr>shared := worker_iteration py sv (shared c)\<rparr>"
  from Suc(2) have ne: "audio_queue (shared c) \<noteq> []" by auto
  have two: "worker_step py sv (worker_step py sv c) = ?c2"
    using Suc(3,4) ne by (simp add: worker_step_def)
  have len: "n = length (audio_queue (shared ?c2))" using Suc(2) by simp
  have pre: "transcription_thread (shared ?c2) = Some Alive" "worker_at ?c2 = WorkerGuard"
      "\<not> is_recording (shared ?c2)"
    using Suc(3,4,5) by simp_all
  have "run_threads py sv (replicate (2 * length (audio_queue (shared c)) + 1) TranscriptionThread) c =
        run_threads py sv (replicate (2 * n + 1) TranscriptionThread) ?c2"
    using Suc(2) [symmetric] two by simp
  also have "\<dots> = ?c2\<lparr>shared := ((worker_iteration py sv ^^ n) (shared ?c2))
                    \<lparr>transcription_thread := Some Finished\<rparr>\<rparr>"
    using Suc(1) [OF len pre] len by simp
  also have "\<dots> = c\<lparr>shared := ((worker_iteration py sv ^^ length (audio_queue (shared c))) (shared c))
                    \<lparr>transcription_thread := Some Finished\<rparr>\<rparr>"
    using Suc(2) [symmetric] by (simp add: funpow_swap1)
  finally show ?case .
qed

lemma stop_flush_steps:
  "flush_voiced_frames (s\<lparr>is_recording := False\<rparr>) = stop_flush s"
  by (simp add: flush_voiced_frames_def stop_flush_def Let_def)

lemma flush_voiced_frames_fields [simp]:
  "is_recording (flush_voiced_frames s) = is_recording s"
  "recording_thread (flush_voiced_frames s) = recording_thread s"
  "transcription_thread (flush_voiced_frames s) = transcription_thread s"
  by (simp_all add: flush_voiced_frames_def)

lemma stop_flush_fields [simp]:
  "is_recording (stop_flush s) = False"
  "recording_thread (stop_flush s) = recording_thread s"
  "transcription_thread (stop_flush s) = transcription_thread s"
  by (simp_all add: stop_flush_def Let_def)

section \<open>Properties of stop\<close>

text \<open>
  C1 asks for exactly one final segment when \<^verbatim>\<open>stop\<close> is called inside an utterance.
  The code queues two: \<^verbatim>\<open>stop\<close> queues the utterance buffer and leaves it as it is, and
  the \<^verbatim>\<open>finally\<close> block of the recording thread, which \<^verbatim>\<open>stop\<close> then joins, queues it
  again. When \<^verbatim>\<open>stop\<close> is called with a non-empty utterance buffer and a running
  recording thread that makes no further read, the queue before the worker is joined
  holds two copies of the final segment; when the recording thread still reads one frame
  that does not end the utterance, the second segment holds that frame too.
\<close>

theorem stop_queues_final_segment_twice:
  "voiced_frames s \<noteq> [] \<Longrightarrow> recording_thread s = Some Alive \<Longrightarrow>
     audio_queue (join_recording sv [] (stop_flush s)) =
       audio_queue s @ [save_audio_segment (voiced_frames s), save_audio_segment (voiced_frames s)]
     \<and> (triggered s \<and> triggered (process_frame f (is_speech sv f) (stop_flush s)) \<longrightarrow>
          audio_queue (join_recording sv [Frame f] (stop_flush s)) =
            audio_queue s @ [save_audio_segment (voiced_frames s),
                             save_audio_segment (voiced_frames s @ [f])])"
proof (intro conjI impI)
  assume a: "voiced_frames s \<noteq> []" "recording_thread s = Some Alive"
  then show "audio_queue (join_recording sv [] (stop_flush s)) =
       audio_queue s @ [save_audio_segment (voiced_frames s), save_audio_segment (voiced_frames s)]"
    by (simp add: join_recording_def stop_flush_def flush_voiced_frames_def Let_def)
  assume t: "triggered s \<and> triggered (process_frame f (is_speech sv f) (stop_flush s))"
  let ?s1 = "stop_flush s"
  from a have s1: "triggered ?s1 = triggered s" "voiced_frames ?s1 = voiced_frames s"
      "recording_thread ?s1 = Some Alive"
      "audio_queue ?s1 = audio_queue s @ [save_audio_segment (voiced_frames s)]"
    by (simp_all add: stop_flush_def Let_def)
  from t s1(1) have p: "voiced_frames (process_frame f (is_speech sv f) ?s1) = voiced_frames ?s1 @ [f]"
      "audio_queue (process_frame f (is_speech sv f) ?s1) = audio_queue ?s1"
      "recording_thread (process_frame f (is_speech sv f) ?s1) = recording_thread ?s1"
    by (auto simp: process_frame_def Let_def split: if_splits)
  show "audio_queue (join_recording sv [Frame f] (stop_flush s)) =
            audio_queue s @ [save_audio_segment (voiced_frames s),
                             save_audio_segment (voiced_frames s @ [f])]"
    using p s1 by (simp add: join_recording_def flush_voiced_frames_def)
qed

lemma speaking_flushed_eq:
  "join_recording demo_services [] (stop_flush speaking) =
     (FasterWhisperLiveTranscriber ''base'' ''cpu'' ''int8'' 2)
       \<lparr>model := Some (), is_recording := False, ring_buffer := [(11, True), (12, True)],
        triggered := True, voiced_frames := [1, 2, 3, 4, 5, 6, 7, 8, 9, 10, 11, 12],
        transcript_logger :=
          \<lparr>tool_name = ''faster-whisper'', logger_model_name = ''base'',
           session_start_time = Some 0, transcript_entries = [],
           session_metadata =
             [(''device'', PStr ''cpu''), (''compute_type'', PStr ''int8''), (''vad_mode'', PInt 2)]\<rparr>,
        audio_queue := [Wav [1, 2, 3, 4, 5, 6, 7, 8, 9, 10, 11, 12],
                        Wav [1, 2, 3, 4, 5, 6, 7, 8, 9, 10, 11, 12]],
        transcription_thread := Some Alive, recording_thread := Some Finished\<rparr>"
  by (simp add: speaking_eq join_recording_def stop_flush_def flush_voiced_frames_def
      FasterWhisperLiveTranscriber_def save_audio_segment_def Let_def)

lemma stopped_once_eq:
  "stop_threads demo_pylib demo_services [] speaking = Some stopped_once \<and>
   stopped_once =
     (FasterWhisperLiveTranscriber ''base'' ''cpu'' ''int8'' 2)
       \<lparr>model := Some (), is_recording := False, ring_buffer := [(11, True), (12, True)],
        triggered := True, voiced_frames := [1, 2, 3, 4, 5, 6, 7, 8, 9, 10, 11, 12],
        transcription_times := [1, 1], total_segments := 2,
        transcript_logger :=
          \<lparr>tool_name = ''faster-whisper'', logger_model_name = ''base'',
           session_start_time = Some 0,
           transcript_entries =
             [\<lparr>entry_timestamp = ''00:00:00'', entry_text = ''hello'',
               extra_data = [(''language'', PStr ''en''), (''confidence'', PFloat 1),
                             (''duration'', PFloat 1)]\<rparr>,
              \<lparr>entry_timestamp = ''00:00:00'', entry_text = ''hello'',
               extra_data = [(''language'', PStr ''en''), (''confidence'', PFloat 1),
                             (''duration'', PFloat 1)]\<rparr>],
           session_metadata =
             [(''device'', PStr ''cpu''), (''compute_type'', PStr ''int8''), (''vad_mode'', PInt 2)]\<rparr>,
        transcription_thread := Some Finished, recording_thread := Some Finished\<rparr>"
proof -
  let ?s = "join_recording demo_services [] (stop_flush speaking)"
  have nr: "\<not> is_recording ?s"
    by (simp add: speaking_flushed_eq FasterWhisperLiveTranscriber_def)
  have len: "length (audio_queue ?s) = Suc (Suc 0)"
    by (simp add: speaking_flushed_eq FasterWhisperLiveTranscriber_def)
  have al: "transcription_thread ?s = Some Alive"
    by (simp add: speaking_flushed_eq FasterWhisperLiveTranscriber_def)
  have w: "transcribe_worker demo_pylib demo_services ?s =
      Some (worker_iteration demo_pylib demo_services (worker_iteration demo_pylib demo_services ?s))"
    using transcribe_worker_drains [OF nr, of demo_pylib demo_services] len by simp
  have st: "stop_threads demo_pylib demo_services [] speaking =
      Some ((worker_iteration demo_pylib demo_services (worker_iteration demo_pylib demo_services ?s))
              \<lparr>transcription_thread := Some Finished\<rparr>)"
    by (simp add: stop_threads_def join_transcription_def al w)
  have ev: "(worker_iteration demo_pylib demo_services (worker_iteration demo_pylib demo_services ?s))
              \<lparr>transcription_thread := Some Finished\<rparr> =
     (FasterWhisperLiveTranscriber ''base'' ''cpu'' ''int8'' 2)
       \<lparr>model := Some (), is_recording := False, ring_buffer := [(11, True), (12, True)],
        triggered := True, voiced_frames := [1, 2, 3, 4, 5, 6, 7, 8, 9, 10, 11, 12],
        transcription_times := [1, 1], total_segments := 2,
        transcript_logger :=
          \<lparr>tool_name = ''faster-whisper'', logger_model_name = ''base'',
           session_start_time = Some 0,
           transcript_entries =
             [\<lparr>entry_timestamp = ''00:00:00'', entry_text = ''hello'',
               extra_data = [(''language'', PStr ''en''), (''confidence'', PFloat 1),
                             (''duration'', PFloat 1)]\<rparr>,
              \<lparr>entry_timestamp = ''00:00:00'', entry_text = ''hello'',
               extra_data = [(''language'', PStr ''en''), (''confidence'', PFloat 1),
                             (''duration'', PFloat 1)]\<rparr>],
           session_metadata =
             [(''device'', PStr ''cpu''), (''compute_type'', PStr ''int8''), (''vad_mode'', PInt 2)]\<rparr>,
        transcription_thread := Some Finished, recording_thread := Some Finished\<rparr>"
    unfolding speaking_flushed_eq
    by (simp add: worker_iteration_def add_transcript_def demo_pylib_def
        demo_services_def FasterWhisperLiveTranscriber_def TranscriptLogger_def Let_def)
  from st ev show ?thesis by (simp add: stopped_once_def)
qed

theorem stop_queues_final_segment_twice_witness:
  "voiced_frames speaking = [1, 2, 3, 4, 5, 6, 7, 8, 9, 10, 11, 12] \<and>
   triggered speaking \<and> audio_queue speaking = [] \<and>
   audio_queue (join_recording demo_services [] (stop_flush speaking)) =
     [Wav [1, 2, 3, 4, 5, 6, 7, 8, 9, 10, 11, 12], Wav [1, 2, 3, 4, 5, 6, 7, 8, 9, 10, 11, 12]] \<and>
   audio_queue (join_recording demo_services [Frame 13] (stop_flush speaking)) =
     [Wav [1, 2, 3, 4, 5, 6, 7, 8, 9, 10, 11, 12],
      Wav [1, 2, 3, 4, 5, 6, 7, 8, 9, 10, 11, 12, 13]] \<and>
   map_option total_segments (stop_threads demo_pylib demo_services [] speaking) = Some 2"
proof -
  have a: "voiced_frames speaking = [1, 2, 3, 4, 5, 6, 7, 8, 9, 10, 11, 12]"
      "recording_thread speaking = Some Alive" "triggered speaking" "audio_queue speaking = []"
    by (simp_all add: speaking_eq FasterWhisperLiveTranscriber_def)
  from a have ne: "voiced_frames speaking \<noteq> []" by simp
  have tr: "triggered (process_frame 13 (is_speech demo_services 13) (stop_flush speaking))"
    by (simp add: speaking_eq stop_flush_def demo_simps)
  note both = stop_queues_final_segment_twice [OF ne a(2), of demo_services 13]
  from both a(1,4)
  have q: "audio_queue (join_recording demo_services [] (stop_flush speaking)) =
     [Wav [1, 2, 3, 4, 5, 6, 7, 8, 9, 10, 11, 12], Wav [1, 2, 3, 4, 5, 6, 7, 8, 9, 10, 11, 12]]"
    by (simp add: save_audio_segment_def)
  from both a(3) tr
  have "audio_queue (join_recording demo_services [Frame 13] (stop_flush speaking)) =
     audio_queue speaking @ [save_audio_segment (voiced_frames speaking),
                             save_audio_segment (voiced_frames speaking @ [13])]"
    by blast
  then have q': "audio_queue (join_recording demo_services [Frame 13] (stop_flush speaking)) =
     [Wav [1, 2, 3, 4, 5, 6, 7, 8, 9, 10, 11, 12],
      Wav [1, 2, 3, 4, 5, 6, 7, 8, 9, 10, 11, 12, 13]]"
    by (simp add: a(1,4) save_audio_segment_def)
  have t: "map_option total_segments (stop_threads demo_pylib demo_services [] speaking) = Some 2"
    by (simp add: stopped_once_eq [THEN conjunct1] stopped_once_eq [THEN conjunct2]
        FasterWhisperLiveTranscriber_def)
  from a q q' t show ?thesis by simp
qed

lemma stop_threads_finished:
  "recording_thread s = Some Finished \<Longrightarrow> transcription_thread s = Some Finished \<Longrightarrow>
   stop_threads py sv inflight s = Some (stop_flush s)"
  by (simp add: stop_threads_def join_recording_def join_transcription_def stop_flush_def Let_def)

text \<open>
  C3 asks that a second \<^verbatim>\<open>stop\<close> queues nothing and changes nothing. The first
  \<^verbatim>\<open>stop\<close> does not clear the utterance buffer, so a second \<^verbatim>\<open>stop\<close> after a stop
  inside an utterance queues the final segment once more; both threads have finished by
  then, and the segment stays on the queue.
\<close>

theorem second_stop_queues_segment_again:
  "voiced_frames s \<noteq> [] \<Longrightarrow> recording_thread s = Some Finished \<Longrightarrow>
   transcription_thread s = Some Finished \<Longrightarrow>
     stop_threads py sv inflight s =
       Some (s\<lparr>is_recording := False,
               audio_queue := audio_queue s @ [save_audio_segment (voiced_frames s)]\<rparr>)
     \<and> map_option (\<lambda>(e, s', fs'). audio_queue s') (stop py sv os now inflight (s, fs)) =
       Some (audio_queue s @ [save_audio_segment (voiced_frames s)])"
  by (simp add: stop_def stop_threads_finished stop_flush_def Let_def split: prod.splits sum.splits)

theorem second_stop_queues_segment_again_witness:
  "stop_threads demo_pylib demo_services [] speaking = Some stopped_once \<and>
   audio_queue stopped_once = [] \<and>
   stop_threads demo_pylib demo_services [] stopped_once =
     Some (stopped_once\<lparr>audio_queue := [Wav [1, 2, 3, 4, 5, 6, 7, 8, 9, 10, 11, 12]]\<rparr>) \<and>
   stop_threads demo_pylib demo_services [] stopped_once \<noteq> Some stopped_once"
proof -
  note e = stopped_once_eq [THEN conjunct2]
  have a: "voiced_frames stopped_once \<noteq> []" "recording_thread stopped_once = Some Finished"
      "transcription_thread stopped_once = Some Finished" "audio_queue stopped_once = []"
      "\<not> is_recording stopped_once"
      "voiced_frames stopped_once = [1, 2, 3, 4, 5, 6, 7, 8, 9, 10, 11, 12]"
    by (simp_all add: e FasterWhisperLiveTranscriber_def)
  from second_stop_queues_segment_again [OF a(1,2,3), of demo_pylib demo_services "[]", THEN conjunct1]
  have 1: "stop_threads demo_pylib demo_services [] stopped_once =
     Some (stopped_once\<lparr>is_recording := False,
       audio_queue := [Wav [1, 2, 3, 4, 5, 6, 7, 8, 9, 10, 11, 12]]\<rparr>)"
    by (simp add: a(4,6) save_audio_segment_def)
  have 2: "stopped_once\<lparr>is_recording := False\<rparr> = stopped_once"
    using a(5) by simp
  from 1 2 have 3: "stop_threads demo_pylib demo_services [] stopped_once =
     Some (stopped_once\<lparr>audio_queue := [Wav [1, 2, 3, 4, 5, 6, 7, 8, 9, 10, 11, 12]]\<rparr>)"
    by simp
  have 4: "stopped_once\<lparr>audio_queue := [Wav [1, 2, 3, 4, 5, 6, 7, 8, 9, 10, 11, 12]]\<rparr> \<noteq> stopped_once"
  proof
    assume "stopped_once\<lparr>audio_queue := [Wav [1, 2, 3, 4, 5, 6, 7, 8, 9, 10, 11, 12]]\<rparr> = stopped_once"
    then have "audio_queue (stopped_once\<lparr>audio_queue := [Wav [1, 2, 3, 4, 5, 6, 7, 8, 9, 10, 11, 12]]\<rparr>)
       = audio_queue stopped_once" by simp
    with a(4) show False by simp
  qed
  from stopped_once_eq a(4) 3 4 show ?thesis by simp
qed

section \<open>Properties of the threads together\<close>

text \<open>
  The run of \<^verbatim>\<open>stop\<close> described by \<open>stop_threads\<close> is one of the schedules: \<^verbatim>\<open>stop\<close>
  clears the flag and flushes, the recording thread ends, and the worker then runs on its
  own until it has emptied the queue.
\<close>

lemma stop_threads_is_a_schedule:
  assumes "recording_thread s = Some Alive" "transcription_thread s = Some Alive"
  shows "stop_threads py sv [] s =
     Some (shared (run_threads py sv
       ([MainThread, MainThread, RecordingThread, MainThread]
        @ replicate (2 * length (audio_queue (join_recording sv [] (stop_flush s))) + 1)
            TranscriptionThread
        @ [MainThread])
       (stop_called s reads)))"
proof -
  let ?j = "join_recording sv [] (stop_flush s)"
  let ?c = "\<lparr>shared = ?j, worker_at = WorkerGuard, recorder_at = RecorderGuard,
             stop_at = StopJoinTranscription, device_stream = reads\<rparr>"
  have j: "?j = (flush_voiced_frames (stop_flush s))\<lparr>recording_thread := Some Finished\<rparr>"
    using assms by (simp add: join_recording_def)
  have first: "run_threads py sv [MainThread, MainThread, RecordingThread, MainThread]
      (stop_called s reads) = ?c"
    using assms
    by (simp add: stop_called_def stop_step_def recorder_step_def recorder_finish_def
        stop_flush_steps j)
  have pre: "transcription_thread (shared ?c) = Some Alive" "worker_at ?c = WorkerGuard"
      "\<not> is_recording (shared ?c)"
    using assms by (simp_all add: j)
  have nr: "\<not> is_recording ?j" using assms by (simp add: j)
  have al: "transcription_thread ?j = Some Alive" using assms by (simp add: j)
  have "shared (run_threads py sv
       ([MainThread, MainThread, RecordingThread, MainThread]
        @ replicate (2 * length (audio_queue ?j) + 1) TranscriptionThread @ [MainThread])
       (stop_called s reads)) =
     ((worker_iteration py sv ^^ length (audio_queue ?j)) ?j)\<lparr>transcription_thread := Some Finished\<rparr>"
    unfolding run_threads_append first
    using worker_alone [OF pre, of py sv] by (simp add: stop_step_def)
  moreover have "stop_threads py sv [] s =
     Some (((worker_iteration py sv ^^ length (audio_queue ?j)) ?j)\<lparr>transcription_thread := Some Finished\<rparr>)"
    by (simp add: stop_threads_def join_transcription_def al transcribe_worker_drains [OF nr])
  ultimately show ?thesis by simp
qed

lemma worker_iteration_transcribes:
  "audio_queue t = seg # rest \<Longrightarrow> model t = Some m \<Longrightarrow> model_transcribe sv m seg = Some r \<Longrightarrow>
   py_strip py (res_text r) \<noteq> [] \<Longrightarrow>
   worker_iteration py sv t =
     t\<lparr>audio_queue := rest,
       transcription_times := transcription_times t @ [res_elapsed r],
       total_segments := total_segments t + 1,
       transcript_logger :=
         add_transcript py (res_clock r) (py_strip py (res_text r))
           (Some (strftime_hms py (res_clock r)))
           [(''language'', PStr (res_language r)),
            (''confidence'', PFloat (res_language_probability r)),
            (''duration'', PFloat (res_elapsed r))]
           (transcript_logger t)\<rparr>"
  by (simp add: worker_iteration_def Let_def)

lemma good_schedule_speaking:
  "shared (run_threads demo_pylib demo_services
       [MainThread, MainThread, RecordingThread, MainThread, TranscriptionThread,
        TranscriptionThread, TranscriptionThread, TranscriptionThread, TranscriptionThread,
        MainThread]
       (stop_called speaking [])) = stopped_once"
proof -
  have l: "length (audio_queue (join_recording demo_services [] (stop_flush speaking))) = 2"
    by (simp add: speaking_flushed_eq FasterWhisperLiveTranscriber_def)
  have a: "recording_thread speaking = Some Alive" "transcription_thread speaking = Some Alive"
    by (simp_all add: speaking_eq FasterWhisperLiveTranscriber_def)
  have r: "replicate (2 * 2 + 1) TranscriptionThread =
     [TranscriptionThread, TranscriptionThread, TranscriptionThread, TranscriptionThread,
      TranscriptionThread]"
    by (simp add: numeral_eq_Suc)
  from stop_threads_is_a_schedule [OF a, of demo_pylib demo_services "[]"]
  have "stop_threads demo_pylib demo_services [] speaking =
     Some (shared (run_threads demo_pylib demo_services
       ([MainThread, MainThread, RecordingThread, MainThread]
        @ [TranscriptionThread, TranscriptionThread, TranscriptionThread, TranscriptionThread,
           TranscriptionThread]
        @ [MainThread])
       (stop_called speaking [])))"
    unfolding l r .
  with stopped_once_eq [THEN conjunct1] show ?thesis by simp
qed

text \<open>
  C7 asks that the worker ends only when recording has stopped and the queue is drained,
  so that the final segment is not dropped. The loop condition does test both, but
  \<^verbatim>\<open>stop\<close> clears the flag before it queues the final speech, and so does the recording
  thread before its \<^verbatim>\<open>finally\<close> block. When the worker evaluates its condition between
  the clearing of the flag and the flushes, on an empty queue, it ends; the two final
  segments are queued afterwards, both joins return, and whatever step is taken later
  the segments stay on the queue and are never transcribed.
\<close>

theorem worker_exits_before_final_segment:
  "is_recording s \<Longrightarrow> audio_queue s = [] \<Longrightarrow> voiced_frames s \<noteq> [] \<Longrightarrow>
   recording_thread s = Some Alive \<Longrightarrow> transcription_thread s = Some Alive \<Longrightarrow>
     run_threads py sv
       [MainThread, TranscriptionThread, MainThread, RecordingThread, MainThread, MainThread]
       (stop_called s reads) =
       \<lparr>shared = s\<lparr>is_recording := False,
                    audio_queue := [Wav (voiced_frames s), Wav (voiced_frames s)],
                    transcription_thread := Some Finished,
                    recording_thread := Some Finished\<rparr>,
        worker_at = WorkerGuard, recorder_at = RecorderGuard, stop_at = StopReturned,
        device_stream = reads\<rparr>
     \<and> run_threads py sv later
         (run_threads py sv
            [MainThread, TranscriptionThread, MainThread, RecordingThread, MainThread, MainThread]
            (stop_called s reads)) =
       run_threads py sv
         [MainThread, TranscriptionThread, MainThread, RecordingThread, MainThread, MainThread]
         (stop_called s reads)
     \<and> (transcription_thread (shared c) = Some Alive \<and>
          transcription_thread (shared (worker_step py sv c)) = Some Finished \<longrightarrow>
          \<not> is_recording (shared c) \<and> audio_queue (shared c) = [])
     \<and> (audio_queue t = seg # rest \<and> model t = Some m \<and> model_transcribe sv m seg = Some r \<and>
          py_strip py (res_text r) \<noteq> [] \<longrightarrow>
          worker_iteration py sv t =
            t\<lparr>audio_queue := rest,
              transcription_times := transcription_times t @ [res_elapsed r],
              total_segments := total_segments t + 1,
              transcript_logger :=
                add_transcript py (res_clock r) (py_strip py (res_text r))
                  (Some (strftime_hms py (res_clock r)))
                  [(''language'', PStr (res_language r)),
                   (''confidence'', PFloat (res_language_probability r)),
                   (''duration'', PFloat (res_elapsed r))]
                  (transcript_logger t)\<rparr>)"
proof (intro conjI impI)
  assume a: "is_recording s" "audio_queue s = []" "voiced_frames s \<noteq> []"
    "recording_thread s = Some Alive" "transcription_thread s = Some Alive"
  let ?end = "\<lparr>shared = s\<lparr>is_recording := False,
                    audio_queue := [Wav (voiced_frames s), Wav (voiced_frames s)],
                    transcription_thread := Some Finished,
                    recording_thread := Some Finished\<rparr>,
        worker_at = WorkerGuard, recorder_at = RecorderGuard, stop_at = StopReturned,
        device_stream = reads\<rparr>"
  from a show run: "run_threads py sv
       [MainThread, TranscriptionThread, MainThread, RecordingThread, MainThread, MainThread]
       (stop_called s reads) = ?end"
    by (simp add: stop_called_def stop_step_def worker_step_def recorder_step_def
        recorder_finish_def flush_voiced_frames_def save_audio_segment_def)
  have idle: "\<And>t. thread_step py sv t ?end = ?end"
  proof -
    fix t show "thread_step py sv t ?end = ?end"
      by (cases t) (simp_all add: stop_step_def worker_step_def recorder_step_def)
  qed
  have "run_threads py sv later ?end = ?end"
    by (induction later) (simp_all add: idle)
  with run show "run_threads py sv later
         (run_threads py sv
            [MainThread, TranscriptionThread, MainThread, RecordingThread, MainThread, MainThread]
            (stop_called s reads)) =
       run_threads py sv
         [MainThread, TranscriptionThread, MainThread, RecordingThread, MainThread, MainThread]
         (stop_called s reads)"
    by simp
next
  assume "transcription_thread (shared c) = Some Alive \<and>
          transcription_thread (shared (worker_step py sv c)) = Some Finished"
  then show "\<not> is_recording (shared c)" and "audio_queue (shared c) = []"
    using worker_exit_step [of c py sv] by simp_all
next
  assume "audio_queue t = seg # rest \<and> model t = Some m \<and> model_transcribe sv m seg = Some r \<and>
          py_strip py (res_text r) \<noteq> []"
  then show "worker_iteration py sv t =
            t\<lparr>audio_queue := rest,
              transcription_times := transcription_times t @ [res_elapsed r],
              total_segments := total_segments t + 1,
              transcript_logger :=
                add_transcript py (res_clock r) (py_strip py (res_text r))
                  (Some (strftime_hms py (res_clock r)))
                  [(''language'', PStr (res_language r)),
                   (''confidence'', PFloat (res_language_probability r)),
                   (''duration'', PFloat (res_elapsed r))]
                  (transcript_logger t)\<rparr>"
    using worker_iteration_transcribes [of t seg rest m sv r py] by blast
qed

theorem worker_exits_before_final_segment_witness:
  "is_recording speaking \<and> audio_queue speaking = [] \<and>
   voiced_frames speaking = [1, 2, 3, 4, 5, 6, 7, 8, 9, 10, 11, 12] \<and>
   stop_at (run_threads demo_pylib demo_services
       [MainThread, TranscriptionThread, MainThread, RecordingThread, MainThread, MainThread]
       (stop_called speaking [])) = StopReturned \<and>
   transcription_thread (shared (run_threads demo_pylib demo_services
       [MainThread, TranscriptionThread, MainThread, RecordingThread, MainThread, MainThread]
       (stop_called speaking []))) = Some Finished \<and>
   audio_queue (shared (run_threads demo_pylib demo_services
       [MainThread, TranscriptionThread, MainThread, RecordingThread, MainThread, MainThread]
       (stop_called speaking []))) =
     [Wav [1, 2, 3, 4, 5, 6, 7, 8, 9, 10, 11, 12], Wav [1, 2, 3, 4, 5, 6, 7, 8, 9, 10, 11, 12]] \<and>
   total_segments (shared (run_threads demo_pylib demo_services
       [MainThread, TranscriptionThread, MainThread, RecordingThread, MainThread, MainThread]
       (stop_called speaking []))) = 0 \<and>
   transcript_entries (transcript_logger (shared (run_threads demo_pylib demo_services
       [MainThread, TranscriptionThread, MainThread, RecordingThread, MainThread, MainThread]
       (stop_called speaking [])))) = [] \<and>
   total_segments (shared (run_threads demo_pylib demo_services
       [MainThread, MainThread, RecordingThread, MainThread, TranscriptionThread,
        TranscriptionThread, TranscriptionThread, TranscriptionThread, TranscriptionThread,
        MainThread]
       (stop_called speaking []))) = 2 \<and>
   audio_queue (shared (run_threads demo_pylib demo_services
       [MainThread, MainThread, RecordingThread, MainThread, TranscriptionThread,
        TranscriptionThread, TranscriptionThread, TranscriptionThread, TranscriptionThread,
        MainThread]
       (stop_called speaking []))) = []"
proof -
  let ?bad = "run_threads demo_pylib demo_services
       [MainThread, TranscriptionThread, MainThread, RecordingThread, MainThread, MainThread]
       (stop_called speaking [])"
  let ?good = "run_threads demo_pylib demo_services
       [MainThread, MainThread, RecordingThread, MainThread, TranscriptionThread,
        TranscriptionThread, TranscriptionThread, TranscriptionThread, TranscriptionThread,
        MainThread]
       (stop_called speaking [])"
  have a: "is_recording speaking" "audio_queue speaking = []"
      "voiced_frames speaking = [1, 2, 3, 4, 5, 6, 7, 8, 9, 10, 11, 12]"
      "recording_thread speaking = Some Alive" "transcription_thread speaking = Some Alive"
      "total_segments speaking = 0" "transcript_entries (transcript_logger speaking) = []"
    by (simp_all add: speaking_eq FasterWhisperLiveTranscriber_def)
  from a(3) have ne: "voiced_frames speaking \<noteq> []" by simp
  note bad = worker_exits_before_final_segment
    [OF a(1) a(2) ne a(4) a(5), of demo_pylib demo_services "[]", THEN conjunct1]
  have b1: "stop_at ?bad = StopReturned"
    unfolding bad by simp
  have b2: "transcription_thread (shared ?bad) = Some Finished"
    unfolding bad by simp
  have b3: "audio_queue (shared ?bad) =
     [Wav [1, 2, 3, 4, 5, 6, 7, 8, 9, 10, 11, 12], Wav [1, 2, 3, 4, 5, 6, 7, 8, 9, 10, 11, 12]]"
    unfolding bad by (simp add: a(3))
  have b4: "total_segments (shared ?bad) = 0"
    unfolding bad by (simp add: a(6))
  have b5: "transcript_entries (transcript_logger (shared ?bad)) = []"
    unfolding bad by (simp add: a(7))
  have g1: "total_segments (shared ?good) = 2"
    unfolding good_schedule_speaking
    by (simp add: stopped_once_eq [THEN conjunct2] FasterWhisperLiveTranscriber_def)
  have g2: "audio_queue (shared ?good) = []"
    unfolding good_schedule_speaking
    by (simp add: stopped_once_eq [THEN conjunct2] FasterWhisperLiveTranscriber_def)
  from a(1,2,3) b1 b2 b3 b4 b5 g1 g2 show ?thesis by blast
qed

end
